theory Spec2Isabelle
  imports Main "HOL-Library.Word" "HOL-Library.Multiset"
begin

unbundle bit_operations_syntax

section \<open>Fatal assertions and results\<close>

text \<open>
  \<open>LOOM_ASSERT\<close> aborts the process. An aborted call is the left summand of the
  result and carries the state the process was in at the abort, so that what had
  already been mutated on a fatal path can be read off. \<open>OutOfRange\<close> stands for an
  unchecked \<open>operator[]\<close> access outside a vector (undefined behaviour in the source).
\<close>

datatype error = AssertionFailed string | OutOfRange

type_synonym ('s, 'a) result = "(error \<times> 's) + 'a"

section \<open>Data model of the kind kernel\<close>

text \<open>
  A kind holds its clustering model (\<open>model.clustering\<close>), its statistics (the
  per-feature part of \<open>model\<close> together with \<open>mixture\<close>, opaque here) and the
  set of feature ids it owns.
\<close>

record ('c, 'm) Kind =
  clustering :: 'c
  mixture :: 'm
  featureids :: "nat set"

record ('c, 'm) CrossCat =
  kinds :: "('c, 'm) Kind list"
  featureid_to_kindid :: "nat list"
  hyper_prior_clustering :: "'c list"

text \<open>The row assignment table: one queue of group ids per kind, one entry per row.\<close>

record Assignments =
  row_count :: nat
  kind_queues :: "nat list list"

text \<open>
  The collaborators whose code lies outside \<open>kind_kernel.cc\<close>: samplers, the
  mixture's statistics, the proposer with its shadow mirror (opaque, of type \<open>'p\<close>,
  indexed by kind id through its own interface) and the compile-time debug level.
\<close>

record ('c, 'm, 'p, 'r, 'v) Collaborators =
  LOOM_DEBUG_LEVEL :: nat
  default_clustering :: 'c
  sample_clustering_prior :: "'c list \<Rightarrow> 'r \<Rightarrow> 'c \<times> 'r"
  sample_assignments :: "'c \<Rightarrow> nat \<Rightarrow> 'r \<Rightarrow> nat list \<times> 'r"
  init_unobserved :: "'c \<Rightarrow> nat list \<Rightarrow> 'r \<Rightarrow> 'm \<times> 'r"
  move_feature_to :: "nat \<Rightarrow> nat \<Rightarrow> bool \<Rightarrow> 'p \<Rightarrow> 'm \<Rightarrow> 'm \<Rightarrow> 'r \<Rightarrow> 'p \<times> 'm \<times> 'm \<times> 'r"
  infer_assignments ::
    "'v \<Rightarrow> ('c, 'm) CrossCat \<Rightarrow> nat list \<Rightarrow> nat \<Rightarrow> bool \<Rightarrow> 'p \<Rightarrow> 'r
      \<Rightarrow> nat list \<times> (nat \<times> nat \<times> nat) \<times> 'p \<times> 'r"
  mixture_init_unobserved :: "('c, 'm) CrossCat \<Rightarrow> 'p \<Rightarrow> 'r \<Rightarrow> 'p \<times> 'r"
  proposer_clear :: "'p \<Rightarrow> 'p"
  count_rows :: "'m \<Rightarrow> nat"
  proposer_count_rows :: "'p \<Rightarrow> nat"

text \<open>
  \<open>default_clustering\<close> is the clustering of a default-constructed kind after
  \<open>model.clear()\<close>. Group ids are the non-negative entries of the vector that
  \<open>sample_assignments\<close> returns. The timer is real time and is left out.
\<close>

record ('c, 'm, 'p, 'r, 'v) KindKernel =
  empty_group_count :: nat
  empty_kind_count :: nat
  iterations :: nat
  score_parallel :: bool
  init_cache :: bool
  tare :: 'v
  cross_cat :: "('c, 'm) CrossCat"
  assignments :: Assignments
  kind_proposer :: 'p
  rng :: 'r
  total_count :: nat
  change_count :: nat
  birth_count :: nat
  death_count :: nat
  tare_time :: nat
  score_time :: nat
  sample_time :: nat

record Config =
  cat_empty_group_count :: nat
  kind_empty_kind_count :: nat
  kind_iterations :: nat
  kind_score_parallel :: bool
  hyper_run :: bool

section \<open>Packed store primitives and validation\<close>

text \<open>
  Modelled from the spec: \<open>packed_add\<close> of the packed vector is defined outside
  \<open>kind_kernel.cc\<close>. The spec (4.1): appending gives the new kind the next dense
  index.
\<close>

definition packed_add :: "'a \<Rightarrow> 'a list \<Rightarrow> 'a list" where
  "packed_add x xs = xs @ [x]"

text \<open>
  Modelled from the spec: \<open>packed_remove\<close> of the packed vector and of the row
  assignment table is defined outside \<open>kind_kernel.cc\<close>. The spec (4.1): removal
  swaps the last element into the index (if the index is not already last) and
  shrinks the store by one.
\<close>

definition packed_remove :: "nat \<Rightarrow> 'a list \<Rightarrow> 'a list" where
  "packed_remove pos xs = butlast (if Suc pos < length xs then xs[pos := last xs] else xs)"

text \<open>
  Modelled from the spec: \<open>CrossCat::validate\<close> is defined outside
  \<open>kind_kernel.cc\<close>. The spec (4.1): it fails fatally if the map's image is not
  exactly the occupied indices or if any kind's owned set disagrees with the map.
  \<open>CrossCat_valid\<close> is the condition it checks.
\<close>

definition CrossCat_valid :: "('c, 'm) CrossCat \<Rightarrow> bool" where
  "CrossCat_valid cc \<longleftrightarrow>
     (\<forall>f \<in> set [0..<length (featureid_to_kindid cc)].
        featureid_to_kindid cc ! f < length (kinds cc) \<and>
        f \<in> featureids (kinds cc ! (featureid_to_kindid cc ! f))) \<and>
     (\<forall>k \<in> set [0..<length (kinds cc)]. \<forall>f \<in> featureids (kinds cc ! k).
        f < length (featureid_to_kindid cc) \<and> featureid_to_kindid cc ! f = k)"

text \<open>
  Modelled from the spec: \<open>Assignments::validate\<close> is defined outside
  \<open>kind_kernel.cc\<close>. The spec (3): the table holds, for each kind index, one group
  id per row. \<open>Assignments_valid\<close> is the condition it checks.
\<close>

definition Assignments_valid :: "Assignments \<Rightarrow> bool" where
  "Assignments_valid a \<longleftrightarrow> (\<forall>q \<in> set (kind_queues a). length q = row_count a)"

type_synonym ('c, 'm, 'p, 'r, 'v) step =
  "(('c, 'm, 'p, 'r, 'v) KindKernel, ('c, 'm, 'p, 'r, 'v) KindKernel) result"

definition CrossCat_validate ::
  "('c, 'm, 'p, 'r, 'v) KindKernel \<Rightarrow> ('c, 'm, 'p, 'r, 'v) step" where
  "CrossCat_validate st =
     (if CrossCat_valid (cross_cat st) then Inr st
      else Inl (AssertionFailed ''cross_cat.validate'', st))"

definition Assignments_validate ::
  "('c, 'm, 'p, 'r, 'v) KindKernel \<Rightarrow> ('c, 'm, 'p, 'r, 'v) step" where
  "Assignments_validate st =
     (if Assignments_valid (assignments st) then Inr st
      else Inl (AssertionFailed ''assignments.validate'', st))"

text \<open>
  Modelled from the spec: \<open>KindKernel::validate\<close> is defined in the kernel's header,
  outside \<open>kind_kernel.cc\<close>. The spec (3 and 4.3, step 6): it validates the
  partition and the row assignment table, and that the two are index-aligned.
\<close>

definition validate ::
  "('c, 'm, 'p, 'r, 'v) KindKernel \<Rightarrow> ('c, 'm, 'p, 'r, 'v) step" where
  "validate st =
     (case CrossCat_validate st of
        Inl e \<Rightarrow> Inl e
      | Inr st1 \<Rightarrow>
          (case Assignments_validate st1 of
             Inl e \<Rightarrow> Inl e
           | Inr st2 \<Rightarrow>
               if length (kind_queues (assignments st2)) = length (kinds (cross_cat st2))
               then Inr st2
               else Inl (AssertionFailed ''kind_count'', st2)))"

section \<open>The kind kernel's operations\<close>

subsection \<open>\<open>add_featureless_kind\<close>\<close>

text \<open>The first loop: \<open>group_count = max(group_count, 1 + groupid)\<close> from zero.\<close>

definition max_group_count :: "nat list \<Rightarrow> nat" where
  "max_group_count assignment_vector =
     fold (\<lambda>groupid group_count. max group_count (1 + groupid)) assignment_vector 0"

text \<open>The second loop: push each group id on the new queue and count it.\<close>

definition push_and_count :: "nat list \<Rightarrow> nat list \<Rightarrow> nat list \<times> nat list" where
  "push_and_count assignment_vector counts =
     fold (\<lambda>groupid (queue, counts). (queue @ [groupid], counts[groupid := counts ! groupid + 1]))
       assignment_vector ([], counts)"

text \<open>
  \<open>clusterings1\<close> are the clusterings of \<open>cross_cat_.kinds\<close> once \<open>packed_add()\<close>
  has appended the default-constructed kind, so that \<open>kinds[0]\<close> is the fresh kind
  itself when the store was empty.
\<close>

definition add_featureless_kind ::
  "('c, 'm, 'p, 'r, 'v) Collaborators \<Rightarrow> ('c, 'm, 'p, 'r, 'v) KindKernel
    \<Rightarrow> ('c, 'm, 'p, 'r, 'v) KindKernel" where
  "add_featureless_kind env st =
     (let cc = cross_cat st;
          clusterings1 = packed_add (default_clustering env) (map clustering (kinds cc));
          grid_prior = hyper_prior_clustering cc;
          (model_clustering, rng1) =
            (if grid_prior \<noteq> [] then sample_clustering_prior env grid_prior (rng st)
             else (clusterings1 ! 0, rng st));
          n_rows = row_count (assignments st);
          (assignment_vector, rng2) = sample_assignments env model_clustering n_rows rng1;
          group_count = max_group_count assignment_vector + empty_group_count st;
          (queue, counts) = push_and_count assignment_vector (replicate group_count 0);
          (mix, rng3) = init_unobserved env model_clustering counts rng2;
          kind = \<lparr>clustering = model_clustering, mixture = mix, featureids = {}\<rparr>
      in st\<lparr>cross_cat := cc\<lparr>kinds := packed_add kind (kinds cc)\<rparr>,
            assignments := (assignments st)
              \<lparr>kind_queues := packed_add queue (kind_queues (assignments st))\<rparr>,
            rng := rng3\<rparr>)"

subsection \<open>\<open>remove_featureless_kind\<close>\<close>

text \<open>The repointing loop over the feature ids of the kind now at \<open>kindid\<close>.\<close>

fun repoint :: "nat list \<Rightarrow> nat \<Rightarrow> nat list \<Rightarrow> error + nat list" where
  "repoint [] kindid m = Inr m"
| "repoint (featureid # rest) kindid m =
     (if featureid < length m then repoint rest kindid (m[featureid := kindid])
      else Inl OutOfRange)"

definition remove_featureless_kind ::
  "nat \<Rightarrow> ('c, 'm, 'p, 'r, 'v) KindKernel \<Rightarrow> ('c, 'm, 'p, 'r, 'v) step" where
  "remove_featureless_kind kindid st =
     (let cc = cross_cat st in
      if \<not> kindid < length (kinds cc) then Inl (OutOfRange, st)
      else if featureids (kinds cc ! kindid) \<noteq> {}
      then Inl (AssertionFailed ''cannot remove nonempty kind'', st)
      else
        let st1 = st\<lparr>cross_cat := cc\<lparr>kinds := packed_remove kindid (kinds cc)\<rparr>\<rparr> in
        if \<not> kindid < length (kind_queues (assignments st1)) then Inl (OutOfRange, st1)
        else
          let st2 = st1\<lparr>assignments := (assignments st1)
                      \<lparr>kind_queues := packed_remove kindid (kind_queues (assignments st1))\<rparr>\<rparr>;
              cc2 = cross_cat st2
          in
          if kindid < length (kinds cc2) then
            (case repoint (sorted_list_of_set (featureids (kinds cc2 ! kindid))) kindid
                    (featureid_to_kindid cc2) of
               Inl e \<Rightarrow> Inl (e, st2)
             | Inr m \<Rightarrow> Inr (st2\<lparr>cross_cat := cc2\<lparr>featureid_to_kindid := m\<rparr>\<rparr>))
          else Inr st2)"

subsection \<open>\<open>init_featureless_kinds\<close>\<close>

text \<open>
  Phase 1: the scan \<open>for (int i = size - 1; i >= 0; --i)\<close>. The counter is an
  integer that runs below zero to stop; the number of kinds is taken to fit an
  \<open>int\<close>.
\<close>

function remove_empty_from ::
  "int \<Rightarrow> ('c, 'm, 'p, 'r, 'v) KindKernel \<Rightarrow> ('c, 'm, 'p, 'r, 'v) step" where
  "remove_empty_from i st =
     (if i < 0 then Inr st
      else if \<not> nat i < length (kinds (cross_cat st)) then Inl (OutOfRange, st)
      else if featureids (kinds (cross_cat st) ! nat i) = {} then
        (case remove_featureless_kind (nat i) st of
           Inl e \<Rightarrow> Inl e
         | Inr st' \<Rightarrow> remove_empty_from (i - 1) st')
      else remove_empty_from (i - 1) st)"
  by pat_completeness auto
termination
  by (relation "measure (\<lambda>(i, st). nat (i + 1))") auto

text \<open>Phase 2: \<open>for (size_t i = 0; i < featureless_kind_count; ++i)\<close>.\<close>

primrec add_kinds ::
  "('c, 'm, 'p, 'r, 'v) Collaborators \<Rightarrow> nat \<Rightarrow> ('c, 'm, 'p, 'r, 'v) KindKernel
    \<Rightarrow> ('c, 'm, 'p, 'r, 'v) KindKernel" where
  "add_kinds env 0 st = st"
| "add_kinds env (Suc n) st = add_kinds env n (add_featureless_kind env st)"

text \<open>
  \<open>update_splitter\<close> rebuilds routing data derived from the partition; that data is
  not part of the state modelled here, so the call leaves the state as it is.
\<close>

definition init_featureless_kinds ::
  "('c, 'm, 'p, 'r, 'v) Collaborators \<Rightarrow> nat \<Rightarrow> ('c, 'm, 'p, 'r, 'v) KindKernel
    \<Rightarrow> ('c, 'm, 'p, 'r, 'v) step" where
  "init_featureless_kinds env featureless_kind_count st =
     (case remove_empty_from (int (length (kinds (cross_cat st))) - 1) st of
        Inl e \<Rightarrow> Inl e
      | Inr st1 \<Rightarrow>
          (case CrossCat_validate (add_kinds env featureless_kind_count st1) of
             Inl e \<Rightarrow> Inl e
           | Inr st2 \<Rightarrow> Assignments_validate st2))"

subsection \<open>\<open>move_feature_to_kind\<close>\<close>

definition move_feature_to_kind ::
  "('c, 'm, 'p, 'r, 'v) Collaborators \<Rightarrow> nat \<Rightarrow> nat \<Rightarrow> ('c, 'm, 'p, 'r, 'v) KindKernel
    \<Rightarrow> ('c, 'm, 'p, 'r, 'v) step" where
  "move_feature_to_kind env featureid new_kindid st =
     (let cc = cross_cat st in
      if \<not> featureid < length (featureid_to_kindid cc) then Inl (OutOfRange, st)
      else
        let old_kindid = featureid_to_kindid cc ! featureid in
        if new_kindid = old_kindid then Inl (AssertionFailed ''new_kindid != old_kindid'', st)
        else if \<not> (old_kindid < length (kinds cc) \<and> new_kindid < length (kinds cc))
        then Inl (OutOfRange, st)
        else
          let old_kind = kinds cc ! old_kindid;
              new_kind = kinds cc ! new_kindid;
              (proposer, old_mixture, new_mixture, rng1) =
                move_feature_to env featureid new_kindid (init_cache st) (kind_proposer st)
                  (mixture old_kind) (mixture new_kind) (rng st);
              old_kind1 = old_kind\<lparr>mixture := old_mixture,
                            featureids := featureids old_kind - {featureid}\<rparr>;
              new_kind1 = new_kind\<lparr>mixture := new_mixture,
                            featureids := insert featureid (featureids new_kind)\<rparr>;
              st1 = st\<lparr>cross_cat := cc
                         \<lparr>kinds := (kinds cc)[old_kindid := old_kind1, new_kindid := new_kind1],
                          featureid_to_kindid := (featureid_to_kindid cc)[featureid := new_kindid]\<rparr>,
                       kind_proposer := proposer, rng := rng1\<rparr>
          in (case CrossCat_validate st1 of
                Inl e \<Rightarrow> Inl e
              | Inr st2 \<Rightarrow> Assignments_validate st2))"

subsection \<open>\<open>try_run\<close>, construction and destruction\<close>

text \<open>The row-count checks made when \<open>LOOM_DEBUG_LEVEL >= 1\<close>.\<close>

definition check_row_counts ::
  "('c, 'm, 'p, 'r, 'v) Collaborators \<Rightarrow> bool \<Rightarrow> ('c, 'm, 'p, 'r, 'v) KindKernel
    \<Rightarrow> ('c, 'm, 'p, 'r, 'v) step" where
  "check_row_counts env with_proposer st =
     (if LOOM_DEBUG_LEVEL env \<ge> 1 then
        (if kinds (cross_cat st) = [] then Inl (OutOfRange, st)
         else
           let assigned_row_count = row_count (assignments st);
               cross_cat_row_count = count_rows env (mixture (kinds (cross_cat st) ! 0));
               proposer_row_count = proposer_count_rows env (kind_proposer st)
           in if assigned_row_count \<noteq> cross_cat_row_count
              then Inl (AssertionFailed ''assigned_row_count == cross_cat_row_count'', st)
              else if with_proposer \<and> proposer_row_count \<noteq> cross_cat_row_count
              then Inl (AssertionFailed ''proposer_row_count == cross_cat_row_count'', st)
              else Inr st)
      else Inr st)"

text \<open>The loop over \<open>featureid = 0 ..< feature_count\<close> that applies the moves.\<close>

fun apply_moves ::
  "('c, 'm, 'p, 'r, 'v) Collaborators \<Rightarrow> nat list \<Rightarrow> nat list \<Rightarrow> nat list \<Rightarrow> nat
    \<Rightarrow> ('c, 'm, 'p, 'r, 'v) KindKernel
    \<Rightarrow> (('c, 'm, 'p, 'r, 'v) KindKernel, nat \<times> ('c, 'm, 'p, 'r, 'v) KindKernel) result" where
  "apply_moves env old_kindids new_kindids [] changed st = Inr (changed, st)"
| "apply_moves env old_kindids new_kindids (featureid # rest) changed st =
     (if \<not> featureid < length new_kindids then Inl (OutOfRange, st)
      else
        let old_kindid = old_kindids ! featureid;
            new_kindid = new_kindids ! featureid
        in if new_kindid \<noteq> old_kindid then
             (case move_feature_to_kind env featureid new_kindid st of
                Inl e \<Rightarrow> Inl e
              | Inr st' \<Rightarrow> apply_moves env old_kindids new_kindids rest (changed + 1) st')
           else apply_moves env old_kindids new_kindids rest changed st)"

text \<open>\<open>kind_states[kindid] = 1\<close> for the old ids, \<open>kind_states[kindid] |= 2\<close> for the new.\<close>

fun mark_old :: "nat list \<Rightarrow> nat list \<Rightarrow> error + nat list" where
  "mark_old [] kind_states = Inr kind_states"
| "mark_old (kindid # rest) kind_states =
     (if kindid < length kind_states then mark_old rest (kind_states[kindid := 1])
      else Inl OutOfRange)"

fun mark_new :: "nat list \<Rightarrow> nat list \<Rightarrow> error + nat list" where
  "mark_new [] kind_states = Inr kind_states"
| "mark_new (kindid # rest) kind_states =
     (if kindid < length kind_states
      then mark_new rest (kind_states[kindid := (kind_states ! kindid) OR 2])
      else Inl OutOfRange)"

fun tally_states :: "nat list \<Rightarrow> nat list \<Rightarrow> error + nat list" where
  "tally_states [] state_counts = Inr state_counts"
| "tally_states (state # rest) state_counts =
     (if state < length state_counts
      then tally_states rest (state_counts[state := state_counts ! state + 1])
      else Inl OutOfRange)"

definition try_run ::
  "('c, 'm, 'p, 'r, 'v) Collaborators \<Rightarrow> ('c, 'm, 'p, 'r, 'v) KindKernel
    \<Rightarrow> (('c, 'm, 'p, 'r, 'v) KindKernel, bool \<times> ('c, 'm, 'p, 'r, 'v) KindKernel) result" where
  "try_run env st =
     (case check_row_counts env True st of
        Inl e \<Rightarrow> Inl e
      | Inr _ \<Rightarrow>
     (case validate st of
        Inl e \<Rightarrow> Inl e
      | Inr _ \<Rightarrow>
     (let old_kindids = featureid_to_kindid (cross_cat st);
          (new_kindids, (t_tare, t_score, t_sample), proposer, rng1) =
            infer_assignments env (tare st) (cross_cat st) old_kindids (iterations st)
              (score_parallel st) (kind_proposer st) (rng st);
          st1 = st\<lparr>kind_proposer := proposer, rng := rng1,
                   tare_time := t_tare, score_time := t_score, sample_time := t_sample\<rparr>;
          feature_count = length old_kindids
      in
     (case apply_moves env old_kindids new_kindids [0..<feature_count] 0 st1 of
        Inl e \<Rightarrow> Inl e
      | Inr (changed, st2) \<Rightarrow>
     (let st3 = st2\<lparr>total_count := feature_count, change_count := changed\<rparr>;
          kind_count = length (kinds (cross_cat st3))
      in
     (case mark_old old_kindids (replicate kind_count 0) of
        Inl e \<Rightarrow> Inl (e, st3)
      | Inr kind_states1 \<Rightarrow>
     (case mark_new new_kindids kind_states1 of
        Inl e \<Rightarrow> Inl (e, st3)
      | Inr kind_states \<Rightarrow>
     (case tally_states kind_states [0, 0, 0, 0] of
        Inl e \<Rightarrow> Inl (e, st3)
      | Inr state_counts \<Rightarrow>
     (let st4 = st3\<lparr>death_count := state_counts ! 1, birth_count := state_counts ! 2\<rparr>
      in
     (case init_featureless_kinds env (empty_kind_count st4) st4 of
        Inl e \<Rightarrow> Inl e
      | Inr st5 \<Rightarrow>
     (let (proposer2, rng2) =
            mixture_init_unobserved env (cross_cat st5) (kind_proposer st5) (rng st5);
          st6 = st5\<lparr>kind_proposer := proposer2, rng := rng2\<rparr>
      in
     (case validate st6 of
        Inl e \<Rightarrow> Inl e
      | Inr st7 \<Rightarrow> Inr (changed > 0, st7)))))))))))))"

text \<open>The constructor; \<open>rng0\<close> is the random source built from the seed.\<close>

definition KindKernel_new ::
  "('c, 'm, 'p, 'r, 'v) Collaborators \<Rightarrow> Config \<Rightarrow> 'v \<Rightarrow> ('c, 'm) CrossCat \<Rightarrow> Assignments
    \<Rightarrow> 'p \<Rightarrow> 'r \<Rightarrow> ('c, 'm, 'p, 'r, 'v) step" where
  "KindKernel_new env config tare0 cross_cat0 assignments0 proposer0 rng0 =
     (let st = \<lparr>empty_group_count = cat_empty_group_count config,
                empty_kind_count = kind_empty_kind_count config,
                iterations = kind_iterations config,
                score_parallel = kind_score_parallel config,
                init_cache = (\<not> hyper_run config),
                tare = tare0, cross_cat = cross_cat0, assignments = assignments0,
                kind_proposer = proposer0, rng = rng0,
                total_count = 0, change_count = 0, birth_count = 0, death_count = 0,
                tare_time = 0, score_time = 0, sample_time = 0\<rparr>
      in
      if \<not> 0 < iterations st then Inl (AssertionFailed ''0 < iterations'', st)
      else if \<not> 0 < empty_kind_count st then Inl (AssertionFailed ''0 < empty_kind_count'', st)
      else
        (case check_row_counts env False st of
           Inl e \<Rightarrow> Inl e
         | Inr _ \<Rightarrow>
        (case init_featureless_kinds env (empty_kind_count st) st of
           Inl e \<Rightarrow> Inl e
         | Inr st1 \<Rightarrow>
             let (proposer1, rng1) =
                   mixture_init_unobserved env (cross_cat st1) (kind_proposer st1) (rng st1)
             in validate (st1\<lparr>kind_proposer := proposer1, rng := rng1\<rparr>))))"

text \<open>The destructor.\<close>

definition KindKernel_delete ::
  "('c, 'm, 'p, 'r, 'v) Collaborators \<Rightarrow> ('c, 'm, 'p, 'r, 'v) KindKernel
    \<Rightarrow> ('c, 'm, 'p, 'r, 'v) step" where
  "KindKernel_delete env st =
     (case init_featureless_kinds env 0
             (st\<lparr>kind_proposer := proposer_clear env (kind_proposer st)\<rparr>) of
        Inl e \<Rightarrow> Inl e
      | Inr st1 \<Rightarrow> validate st1)"

section \<open>Length-prefixed record streams\<close>

type_synonym byte = "8 word"

definition endswith :: "string \<Rightarrow> string \<Rightarrow> bool" where
  "endswith filename suffix \<longleftrightarrow>
     length filename \<ge> length suffix \<and>
     drop (length filename - length suffix) filename = suffix"

text \<open>
  The protobuf library is outside the repository. Of its coded streams the model keeps
  what the calls in \<open>protobuf_stream.hpp\<close> rely on: a 32-bit value is written as four
  bytes, least significant first, and read back from four bytes; \<open>Skip\<close> takes an
  \<open>int\<close> and refuses a negative count or a count beyond the end of the input, as the
  interface of the input streams documents it.
\<close>

definition WriteLittleEndian32 :: "32 word \<Rightarrow> byte list" where
  "WriteLittleEndian32 w =
     [ucast w, ucast (drop_bit 8 w), ucast (drop_bit 16 w), ucast (drop_bit 24 w)]"

fun ReadLittleEndian32 :: "byte list \<Rightarrow> (32 word \<times> byte list) option" where
  "ReadLittleEndian32 (b0 # b1 # b2 # b3 # rest) =
     Some (ucast b0 OR push_bit 8 (ucast b1) OR push_bit 16 (ucast b2) OR push_bit 24 (ucast b3),
           rest)"
| "ReadLittleEndian32 _ = None"


text \<open>
  The message type's generated code and the gzip streams, also outside the repository:
  \<open>ByteSizeLong\<close> is the length of what \<open>SerializeWithCachedSizes\<close> writes, and
  \<open>ParseFromCodedStream\<close> is applied to the bytes up to the pushed limit.
\<close>

record 'msg Protobuf =
  DEBUG_LEVEL :: nat
  IsInitialized :: "'msg \<Rightarrow> bool"
  SerializeWithCachedSizes :: "'msg \<Rightarrow> byte list"
  ParseFromCodedStream :: "byte list \<Rightarrow> 'msg option"
  gzip :: "byte list \<Rightarrow> byte list"
  gunzip :: "byte list \<Rightarrow> byte list"

text \<open>The named files of the file system that open for input, by their contents.\<close>

type_synonym files = "string \<Rightarrow> byte list option"

text \<open>
  \<open>stream\<close> holds the bytes \<open>stream_\<close> has yet to deliver (decoded, where the name
  ends in \<open>.gz\<close>). Before \<open>_open\<close> has run on a descriptor that is not a named file
  (standard input, or a descriptor handed to the constructor) it holds the bytes
  pending on the descriptor: \<open>_close\<close> does not close such a descriptor and \<open>_open\<close>
  builds the new stream objects on it, so opening it again does not rewind it.
\<close>

record InFile =
  in_filename :: string
  in_is_file :: bool
  stream :: "byte list"
  position :: nat

text \<open>
  \<open>_open\<close>: choose the descriptor (\<open>open\<close> fails on a name that is not in the file
  system), build a file stream on it, and a gzip stream on top where the name ends in
  \<open>.gz\<close>.
\<close>

definition InFile_open :: "'msg Protobuf \<Rightarrow> files \<Rightarrow> InFile \<Rightarrow> error + InFile" where
  "InFile_open lib fs f =
     (let wrap = (\<lambda>bytes. if endswith (in_filename f) ''.gz'' then gunzip lib bytes else bytes)
      in
        if in_filename f = []
        then Inr (f\<lparr>in_is_file := False, stream := wrap (stream f), position := 0\<rparr>)
        else if in_filename f = ''-'' \<or> in_filename f = ''-.gz''
        then Inr (f\<lparr>in_is_file := False, stream := wrap (stream f), position := 0\<rparr>)
        else
          (case fs (in_filename f) of
             None \<Rightarrow> Inl (AssertionFailed ''failed to open input file'')
           | Some bytes \<Rightarrow>
               Inr (f\<lparr>in_is_file := True, stream := wrap bytes, position := 0\<rparr>)))"

text \<open>The two constructors; \<open>pending\<close> are the bytes waiting on the descriptor.\<close>

definition InFile_fid :: "'msg Protobuf \<Rightarrow> files \<Rightarrow> byte list \<Rightarrow> error + InFile" where
  "InFile_fid lib fs pending =
     InFile_open lib fs
       \<lparr>in_filename = [], in_is_file = False, stream = pending, position = 0\<rparr>"

definition InFile_named ::
  "'msg Protobuf \<Rightarrow> files \<Rightarrow> byte list \<Rightarrow> string \<Rightarrow> error + InFile" where
  "InFile_named lib fs pending filename =
     (if filename = [] then Inl (AssertionFailed ''empty filename is not supported'')
      else InFile_open lib fs
             \<lparr>in_filename = filename, in_is_file = False, stream = pending, position = 0\<rparr>)"



text \<open>\<open>try_read_stream\<close>: \<open>None\<close> is the result \<open>false\<close>, \<open>Some m\<close> is \<open>true\<close> with the message read.\<close>

definition try_read_stream ::
  "'msg Protobuf \<Rightarrow> InFile \<Rightarrow> error + ('msg option \<times> InFile)" where
  "try_read_stream lib f =
     (case ReadLittleEndian32 (stream f) of
        Some (message_size, rest) \<Rightarrow>
          (case ParseFromCodedStream lib (take (unat message_size) rest) of
             None \<Rightarrow> Inl (AssertionFailed ''failed to parse message'')
           | Some message \<Rightarrow>
               Inr (Some message,
                    f\<lparr>stream := drop (unat message_size) rest, position := position f + 1\<rparr>))
      | None \<Rightarrow> Inr (None, f))"

definition try_read_stream_raw :: "InFile \<Rightarrow> error + (byte list option \<times> InFile)" where
  "try_read_stream_raw f =
     (case ReadLittleEndian32 (stream f) of
        Some (message_size, rest) \<Rightarrow>
          (if length rest < unat message_size
           then Inl (AssertionFailed ''failed to parse message'')
           else Inr (Some (take (unat message_size) rest),
                     f\<lparr>stream := drop (unat message_size) rest, position := position f + 1\<rparr>))
      | None \<Rightarrow> Inr (None, f))"

record OutFile =
  out_filename :: string
  out_is_file :: bool
  written :: "byte list"

text \<open>
  Opening a named file for output creates or truncates it, and fails where the
  operating system refuses (\<open>open\<close> returns \<open>-1\<close>): \<open>writable\<close> tells the names on
  which it succeeds. The bytes written reach the file when the stream is flushed and
  closed, through gzip when the name ends in \<open>.gz\<close>. Bytes written to standard output
  leave the model.
\<close>

definition OutFile_open :: "(string \<Rightarrow> bool) \<Rightarrow> string \<Rightarrow> error + OutFile" where
  "OutFile_open writable filename =
     (if filename = [] then Inl (AssertionFailed ''empty filename is not supported'')
      else if filename = ''-'' \<or> filename = ''-.gz''
      then Inr \<lparr>out_filename = filename, out_is_file = False, written = []\<rparr>
      else if writable filename
      then Inr \<lparr>out_filename = filename, out_is_file = True, written = []\<rparr>
      else Inl (AssertionFailed ''failed to open output file''))"

definition OutFile_close :: "'msg Protobuf \<Rightarrow> files \<Rightarrow> OutFile \<Rightarrow> files" where
  "OutFile_close lib fs out =
     (if out_is_file out
      then fs(out_filename out \<mapsto>
             (if endswith (out_filename out) ''.gz'' then gzip lib (written out)
              else written out))
      else fs)"

definition write_stream :: "'msg Protobuf \<Rightarrow> 'msg \<Rightarrow> OutFile \<Rightarrow> error + OutFile" where
  "write_stream lib message out =
     (if DEBUG_LEVEL lib \<ge> 1 \<and> \<not> IsInitialized lib message
      then Inl (AssertionFailed ''message not initialized'')
      else
        let message_size = length (SerializeWithCachedSizes lib message)
        in Inr (out\<lparr>written := written out @ WriteLittleEndian32 (word_of_nat message_size)
                                  @ SerializeWithCachedSizes lib message\<rparr>))"

definition write_stream_raw :: "byte list \<Rightarrow> OutFile \<Rightarrow> OutFile" where
  "write_stream_raw raw out =
     out\<lparr>written := written out @ WriteLittleEndian32 (word_of_nat (length raw)) @ raw\<rparr>"

text \<open>\<open>protobuf_stream_dump\<close>: one \<open>write_stream\<close> per message, in order.\<close>

fun write_all :: "'msg Protobuf \<Rightarrow> 'msg list \<Rightarrow> OutFile \<Rightarrow> error + OutFile" where
  "write_all lib [] out = Inr out"
| "write_all lib (message # messages) out =
     (case write_stream lib message out of
        Inl e \<Rightarrow> Inl e
      | Inr out' \<Rightarrow> write_all lib messages out')"

definition protobuf_stream_dump ::
  "'msg Protobuf \<Rightarrow> (string \<Rightarrow> bool) \<Rightarrow> 'msg list \<Rightarrow> string \<Rightarrow> files
    \<Rightarrow> error + files" where
  "protobuf_stream_dump lib writable messages filename fs =
     (case OutFile_open writable filename of
        Inl e \<Rightarrow> Inl e
      | Inr out \<Rightarrow>
          (case write_all lib messages out of
             Inl e \<Rightarrow> Inl e
           | Inr out' \<Rightarrow> Inr (OutFile_close lib fs out')))"

text \<open>
  \<open>protobuf_stream_load\<close>: the vector starts with one spare message, every successful
  \<open>try_read_stream\<close> fills the last one and appends a spare, and the spare is popped
  at the end; \<open>messages\<close> below are the filled ones.
\<close>

function read_all :: "'msg Protobuf \<Rightarrow> InFile \<Rightarrow> 'msg list \<Rightarrow> error + 'msg list" where
  "read_all lib f messages =
     (case try_read_stream lib f of
        Inl e \<Rightarrow> Inl e
      | Inr (None, f') \<Rightarrow> Inr messages
      | Inr (Some message, f') \<Rightarrow> read_all lib f' (messages @ [message]))"
  by pat_completeness auto
termination
  apply (relation "measure (\<lambda>(lib, f, messages). length (stream f))")
   apply simp
  apply (auto simp: try_read_stream_def split: option.splits elim!: ReadLittleEndian32.elims)
  done

definition protobuf_stream_load ::
  "'msg Protobuf \<Rightarrow> files \<Rightarrow> byte list \<Rightarrow> string \<Rightarrow> error + 'msg list" where
  "protobuf_stream_load lib fs pending filename =
     (case InFile_named lib fs pending filename of
        Inl e \<Rightarrow> Inl e
      | Inr f \<Rightarrow> read_all lib f [])"

section \<open>Properties of partitions used in the statements\<close>

text \<open>The row assignment table has one queue per kind.\<close>

definition aligned :: "('c, 'm, 'p, 'r, 'v) KindKernel \<Rightarrow> bool" where
  "aligned st \<longleftrightarrow> length (kind_queues (assignments st)) = length (kinds (cross_cat st))"

text \<open>The number of kinds that own no feature.\<close>

definition count_featureless :: "('c, 'm) CrossCat \<Rightarrow> nat" where
  "count_featureless cc = length (filter (\<lambda>k. featureids k = {}) (kinds cc))"

text \<open>The sampler's contract: \<open>sample_assignments(row_count, rng)\<close> returns one group id per row.\<close>

definition samples_every_row :: "('c, 'm, 'p, 'r, 'v) Collaborators \<Rightarrow> bool" where
  "samples_every_row env \<longleftrightarrow> (\<forall>c n r. length (fst (sample_assignments env c n r)) = n)"

text \<open>The configuration, the tare row, the counters and the timings are as before.\<close>

definition untouched ::
  "('c, 'm, 'p, 'r, 'v) KindKernel \<Rightarrow> ('c, 'm, 'p, 'r, 'v) KindKernel \<Rightarrow> bool" where
  "untouched st st' \<longleftrightarrow>
     empty_group_count st' = empty_group_count st \<and>
     empty_kind_count st' = empty_kind_count st \<and>
     iterations st' = iterations st \<and>
     score_parallel st' = score_parallel st \<and>
     init_cache st' = init_cache st \<and>
     tare st' = tare st \<and>
     total_count st' = total_count st \<and>
     change_count st' = change_count st \<and>
     birth_count st' = birth_count st \<and>
     death_count st' = death_count st \<and>
     tare_time st' = tare_time st \<and>
     score_time st' = score_time st \<and>
     sample_time st' = sample_time st"

text \<open>A given sequence of \<open>move_feature_to_kind\<close> calls, one after the other.\<close>

fun move_each ::
  "('c, 'm, 'p, 'r, 'v) Collaborators \<Rightarrow> (nat \<times> nat) list \<Rightarrow> ('c, 'm, 'p, 'r, 'v) KindKernel
    \<Rightarrow> ('c, 'm, 'p, 'r, 'v) step" where
  "move_each env [] st = Inr st"
| "move_each env ((featureid, new_kindid) # calls) st =
     (case move_feature_to_kind env featureid new_kindid st of
        Inl e \<Rightarrow> Inl e
      | Inr st' \<Rightarrow> move_each env calls st')"

text \<open>
  The states of the partition store an owner of the kernel can observe: after
  construction, after every transition and after destruction.
\<close>

inductive reachable ::
  "('c, 'm, 'p, 'r, 'v) Collaborators \<Rightarrow> ('c, 'm, 'p, 'r, 'v) KindKernel \<Rightarrow> bool"
  for env :: "('c, 'm, 'p, 'r, 'v) Collaborators" where
  constructed:
    "KindKernel_new env config tare0 cross_cat0 assignments0 proposer0 rng0 = Inr st
      \<Longrightarrow> reachable env st"
| ran: "reachable env st \<Longrightarrow> try_run env st = Inr (b, st') \<Longrightarrow> reachable env st'"
| destructed: "reachable env st \<Longrightarrow> KindKernel_delete env st = Inr st' \<Longrightarrow> reachable env st'"

text \<open>
  What the proposer returns in \<open>try_run\<close>: the proposed map \<open>new_kindids\<close>, the state
  with the proposer's outputs stored, and the calls of \<open>move_feature_to_kind\<close> that the
  diff of the old and the proposed map asks for, in the order of the feature ids.
\<close>

definition proposal ::
  "('c, 'm, 'p, 'r, 'v) Collaborators \<Rightarrow> ('c, 'm, 'p, 'r, 'v) KindKernel
    \<Rightarrow> nat list \<times> (nat \<times> nat \<times> nat) \<times> 'p \<times> 'r" where
  "proposal env st =
     infer_assignments env (tare st) (cross_cat st) (featureid_to_kindid (cross_cat st))
       (iterations st) (score_parallel st) (kind_proposer st) (rng st)"

definition proposed_kindids ::
  "('c, 'm, 'p, 'r, 'v) Collaborators \<Rightarrow> ('c, 'm, 'p, 'r, 'v) KindKernel \<Rightarrow> nat list" where
  "proposed_kindids env st = fst (proposal env st)"

definition after_proposal ::
  "('c, 'm, 'p, 'r, 'v) Collaborators \<Rightarrow> ('c, 'm, 'p, 'r, 'v) KindKernel
    \<Rightarrow> ('c, 'm, 'p, 'r, 'v) KindKernel" where
  "after_proposal env st =
     (let (new_kindids, (t_tare, t_score, t_sample), proposer, rng1) = proposal env st
      in st\<lparr>kind_proposer := proposer, rng := rng1,
            tare_time := t_tare, score_time := t_score, sample_time := t_sample\<rparr>)"

definition move_calls ::
  "('c, 'm, 'p, 'r, 'v) Collaborators \<Rightarrow> ('c, 'm, 'p, 'r, 'v) KindKernel \<Rightarrow> (nat \<times> nat) list" where
  "move_calls env st =
     (let old_kindids = featureid_to_kindid (cross_cat st);
          new_kindids = proposed_kindids env st
      in map (\<lambda>featureid. (featureid, new_kindids ! featureid))
           (filter (\<lambda>featureid. new_kindids ! featureid \<noteq> old_kindids ! featureid)
              [0..<length old_kindids]))"

section \<open>Record streams as the statements describe them\<close>

text \<open>One record: the length of the serialized message, then its bytes.\<close>

definition record_of :: "'msg Protobuf \<Rightarrow> 'msg \<Rightarrow> byte list" where
  "record_of lib message =
     WriteLittleEndian32 (word_of_nat (length (SerializeWithCachedSizes lib message)))
       @ SerializeWithCachedSizes lib message"

text \<open>
  A message as the statements take it: initialized, shorter than \<open>2 ^ 31\<close> bytes when
  serialized (the largest size the \<open>int\<close>-typed interface of the coded streams can
  carry), and parsed back from its serialized form.
\<close>

definition well_formed :: "'msg Protobuf \<Rightarrow> 'msg \<Rightarrow> bool" where
  "well_formed lib message \<longleftrightarrow>
     IsInitialized lib message \<and>
     length (SerializeWithCachedSizes lib message) < 2 ^ 31 \<and>
     ParseFromCodedStream lib (SerializeWithCachedSizes lib message) = Some message"


section \<open>A concrete partition for the worked examples\<close>

text \<open>
  Collaborators with the simplest behaviour: one group for every row, a mixture that
  records the number of groups it was initialised with, a proposer that moves
  feature 1 to kind 2.
\<close>

definition env_ex :: "(nat, nat, nat, nat, unit) Collaborators" where
  "env_ex = \<lparr>LOOM_DEBUG_LEVEL = 0, default_clustering = 0,
     sample_clustering_prior = (\<lambda>grid r. (hd grid, r + 1)),
     sample_assignments = (\<lambda>c n r. (replicate n 0, r + 1)),
     init_unobserved = (\<lambda>c counts r. (length counts, r + 1)),
     move_feature_to = (\<lambda>f k b p old new r. (p, old, new, r)),
     infer_assignments = (\<lambda>v cc ids it par p r. (ids[1 := 2], (1, 2, 3), p, r)),
     mixture_init_unobserved = (\<lambda>cc p r. (p, r)),
     proposer_clear = (\<lambda>p. 0),
     count_rows = (\<lambda>m. 1),
     proposer_count_rows = (\<lambda>p. 1)\<rparr>"

text \<open>Kinds A (empty), B (features 0 and 1), C (empty) at indices 0, 1, 2; one row.\<close>

definition st_ex :: "(nat, nat, nat, nat, unit) KindKernel" where
  "st_ex = \<lparr>empty_group_count = 1, empty_kind_count = 2, iterations = 1,
      score_parallel = False, init_cache = True, tare = (),
      cross_cat = \<lparr>kinds = [\<lparr>clustering = 5, mixture = 0, featureids = {}\<rparr>,
                             \<lparr>clustering = 6, mixture = 0, featureids = {0, 1}\<rparr>,
                             \<lparr>clustering = 7, mixture = 0, featureids = {}\<rparr>],
                    featureid_to_kindid = [1, 1], hyper_prior_clustering = []\<rparr>,
      assignments = \<lparr>row_count = 1, kind_queues = [[0], [0], [0]]\<rparr>,
      kind_proposer = 0, rng = 0,
      total_count = 0, change_count = 0, birth_count = 0, death_count = 0,
      tare_time = 0, score_time = 0, sample_time = 0\<rparr>"

definition cfg_ex :: Config where
  "cfg_ex = \<lparr>cat_empty_group_count = 1, kind_empty_kind_count = 2, kind_iterations = 1,
             kind_score_parallel = False, hyper_run = False\<rparr>"

text \<open>The partition after reservoir maintenance with target 2: B, then two fresh kinds.\<close>

definition st_ex_init :: "(nat, nat, nat, nat, unit) KindKernel" where
  "st_ex_init = st_ex
     \<lparr>cross_cat := \<lparr>kinds = [\<lparr>clustering = 6, mixture = 0, featureids = {0, 1}\<rparr>,
                             \<lparr>clustering = 6, mixture = 2, featureids = {}\<rparr>,
                             \<lparr>clustering = 6, mixture = 2, featureids = {}\<rparr>],
                    featureid_to_kindid = [0, 0], hyper_prior_clustering = []\<rparr>,
      assignments := \<lparr>row_count = 1, kind_queues = [[0], [0], [0]]\<rparr>,
      rng := 4\<rparr>"

text \<open>After one transition from there: feature 1 has moved to kind 2.\<close>

definition st_ex_run :: "(nat, nat, nat, nat, unit) KindKernel" where
  "st_ex_run = st_ex
     \<lparr>cross_cat := \<lparr>kinds = [\<lparr>clustering = 6, mixture = 0, featureids = {0}\<rparr>,
                             \<lparr>clustering = 6, mixture = 2, featureids = {1}\<rparr>,
                             \<lparr>clustering = 6, mixture = 2, featureids = {}\<rparr>,
                             \<lparr>clustering = 6, mixture = 2, featureids = {}\<rparr>],
                    featureid_to_kindid = [0, 1], hyper_prior_clustering = []\<rparr>,
      assignments := \<lparr>row_count = 1, kind_queues = [[0], [0], [0], [0]]\<rparr>,
      rng := 8, total_count := 2, change_count := 1, birth_count := 1, death_count := 0,
      tare_time := 1, score_time := 2, sample_time := 3\<rparr>"

text \<open>After destruction: no empty kind is left.\<close>

definition st_ex_end :: "(nat, nat, nat, nat, unit) KindKernel" where
  "st_ex_end = st_ex_run
     \<lparr>cross_cat := \<lparr>kinds = [\<lparr>clustering = 6, mixture = 0, featureids = {0}\<rparr>,
                             \<lparr>clustering = 6, mixture = 2, featureids = {1}\<rparr>],
                    featureid_to_kindid = [0, 1], hyper_prior_clustering = []\<rparr>,
      assignments := \<lparr>row_count = 1, kind_queues = [[0], [0]]\<rparr>\<rparr>"

text \<open>
  Three kinds, of which kind 0 owns feature 1, kind 1 owns feature 0 and kind 2 is
  empty; the proposer of \<open>env_ex\<close> moves feature 1 from kind 0 to kind 2.
\<close>

definition st_syn :: "(nat, nat, nat, nat, unit) KindKernel" where
  "st_syn = st_ex
     \<lparr>cross_cat := \<lparr>kinds = [\<lparr>clustering = 5, mixture = 0, featureids = {1}\<rparr>,
                             \<lparr>clustering = 6, mixture = 0, featureids = {0}\<rparr>,
                             \<lparr>clustering = 7, mixture = 0, featureids = {}\<rparr>],
                    featureid_to_kindid = [1, 0], hyper_prior_clustering = []\<rparr>\<rparr>"

text \<open>The same collaborators with a proposer that returns the map it was given.\<close>

definition env_noop :: "(nat, nat, nat, nat, unit) Collaborators" where
  "env_noop = env_ex\<lparr>infer_assignments := (\<lambda>v cc ids it par p r. (ids, (1, 2, 3), p, r))\<rparr>"

text \<open>The results of one transition from \<open>st_syn\<close>, and of a no-op transition from \<open>st_ex_init\<close>.\<close>

definition st_syn_run :: "(nat, nat, nat, nat, unit) KindKernel" where
  "st_syn_run = st_ex
     \<lparr>cross_cat := \<lparr>kinds = [\<lparr>clustering = 7, mixture = 0, featureids = {1}\<rparr>,
                             \<lparr>clustering = 6, mixture = 0, featureids = {0}\<rparr>,
                             \<lparr>clustering = 7, mixture = 2, featureids = {}\<rparr>,
                             \<lparr>clustering = 7, mixture = 2, featureids = {}\<rparr>],
                    featureid_to_kindid = [1, 0], hyper_prior_clustering = []\<rparr>,
      assignments := \<lparr>row_count = 1, kind_queues = [[0], [0], [0], [0]]\<rparr>,
      rng := 4, total_count := 2, change_count := 1, birth_count := 1, death_count := 1,
      tare_time := 1, score_time := 2, sample_time := 3\<rparr>"

definition st_noop_run :: "(nat, nat, nat, nat, unit) KindKernel" where
  "st_noop_run = st_ex_init
     \<lparr>rng := 8, total_count := 2, change_count := 0, birth_count := 0, death_count := 0,
      tare_time := 1, score_time := 2, sample_time := 3\<rparr>"

text \<open>
  Three kinds, of which kind 0 owns feature 0, kind 1 owns feature 1 and kind 2 is
  empty, with a proposer that puts every feature in kind 2.
\<close>

definition st_two :: "(nat, nat, nat, nat, unit) KindKernel" where
  "st_two = st_ex
     \<lparr>cross_cat := \<lparr>kinds = [\<lparr>clustering = 5, mixture = 0, featureids = {0}\<rparr>,
                             \<lparr>clustering = 6, mixture = 0, featureids = {1}\<rparr>,
                             \<lparr>clustering = 7, mixture = 0, featureids = {}\<rparr>],
                    featureid_to_kindid = [0, 1], hyper_prior_clustering = []\<rparr>\<rparr>"

definition env_merge :: "(nat, nat, nat, nat, unit) Collaborators" where
  "env_merge = env_ex\<lparr>infer_assignments :=
     (\<lambda>v cc ids it par p r. (map (\<lambda>kindid. 2) ids, (1, 2, 3), p, r))\<rparr>"

text \<open>The result of one transition from \<open>st_two\<close> with that proposer.\<close>

definition st_two_run :: "(nat, nat, nat, nat, unit) KindKernel" where
  "st_two_run = st_ex
     \<lparr>cross_cat := \<lparr>kinds = [\<lparr>clustering = 7, mixture = 0, featureids = {0, 1}\<rparr>,
                             \<lparr>clustering = 7, mixture = 2, featureids = {}\<rparr>,
                             \<lparr>clustering = 7, mixture = 2, featureids = {}\<rparr>],
                    featureid_to_kindid = [0, 0], hyper_prior_clustering = []\<rparr>,
      assignments := \<lparr>row_count = 1, kind_queues = [[0], [0], [0]]\<rparr>,
      rng := 4, total_count := 2, change_count := 2, birth_count := 1, death_count := 2,
      tare_time := 1, score_time := 2, sample_time := 3\<rparr>"

text \<open>Kinds A (empty), B (feature 0), C (feature 1): removing A relocates C to index 0.\<close>

definition st_rel :: "(nat, nat, nat, nat, unit) KindKernel" where
  "st_rel = st_ex
     \<lparr>cross_cat := \<lparr>kinds = [\<lparr>clustering = 5, mixture = 0, featureids = {}\<rparr>,
                             \<lparr>clustering = 6, mixture = 0, featureids = {0}\<rparr>,
                             \<lparr>clustering = 7, mixture = 0, featureids = {1}\<rparr>],
                    featureid_to_kindid = [1, 2], hyper_prior_clustering = []\<rparr>\<rparr>"

section \<open>A concrete record stream for the worked examples\<close>

text \<open>Messages that are their own serialized bytes, and an identity compressor.\<close>

definition lib_ex :: "byte list Protobuf" where
  "lib_ex = \<lparr>DEBUG_LEVEL = 1, IsInitialized = (\<lambda>m. True),
              SerializeWithCachedSizes = (\<lambda>m. m), ParseFromCodedStream = Some,
              gzip = (\<lambda>bytes. bytes), gunzip = (\<lambda>bytes. bytes)\<rparr>"

definition msgs_ex :: "byte list list" where
  "msgs_ex = [[1, 2], [3]]"

text \<open>A working directory in which files can be created; there is no directory \<open>none\<close>.\<close>

definition writable_ex :: "string \<Rightarrow> bool" where
  "writable_ex filename \<longleftrightarrow> CHR ''/'' \<notin> set filename"

text \<open>The two records of \<open>msgs_ex\<close> as they stand in a stream.\<close>

definition bytes_ex :: "byte list" where
  "bytes_ex = [2, 0, 0, 0, 1, 2, 1, 0, 0, 0, 3]"





definition file_ex0 :: InFile where
  "file_ex0 = \<lparr>in_filename = ''rows.pbs'', in_is_file = True, stream = bytes_ex, position = 0\<rparr>"

definition file_ex1 :: InFile where
  "file_ex1 = \<lparr>in_filename = ''rows.pbs'', in_is_file = True, stream = [1, 0, 0, 0, 3],
               position = 1\<rparr>"


section \<open>Lemmas about the packed store and the kernel's operations\<close>

lemma CrossCat_valid_iff:
  "CrossCat_valid cc \<longleftrightarrow>
     (\<forall>f < length (featureid_to_kindid cc).
        featureid_to_kindid cc ! f < length (kinds cc) \<and>
        f \<in> featureids (kinds cc ! (featureid_to_kindid cc ! f))) \<and>
     (\<forall>k < length (kinds cc). \<forall>f \<in> featureids (kinds cc ! k).
        f < length (featureid_to_kindid cc) \<and> featureid_to_kindid cc ! f = k)"
  by (auto simp: CrossCat_valid_def)

lemma valid_finite_featureids:
  assumes "CrossCat_valid cc" "k < length (kinds cc)"
  shows "finite (featureids (kinds cc ! k))"
proof -
  have "featureids (kinds cc ! k) \<subseteq> {..<length (featureid_to_kindid cc)}"
    using assms by (auto simp: CrossCat_valid_iff)
  then show ?thesis by (rule finite_subset) simp
qed

lemma length_packed_remove: "length (packed_remove pos xs) = length xs - 1"
  by (simp add: packed_remove_def)

lemma nth_packed_remove:
  "k < length xs - 1 \<Longrightarrow>
   packed_remove pos xs ! k = (if k = pos then last xs else xs ! k)"
  by (auto simp: packed_remove_def nth_butlast)

lemma repoint_spec:
  "\<forall>f \<in> set fs. f < length m \<Longrightarrow>
   \<exists>m'. repoint fs k m = Inr m' \<and> length m' = length m \<and>
        (\<forall>f < length m. m' ! f = (if f \<in> set fs then k else m ! f))"
proof (induction fs arbitrary: m)
  case Nil
  then show ?case by simp
next
  case (Cons a fs)
  from Cons.prems have a: "a < length m" and rest: "\<forall>f \<in> set fs. f < length (m[a := k])"
    by simp_all
  from Cons.IH[OF rest] obtain m' where
    m': "repoint fs k (m[a := k]) = Inr m'" "length m' = length m"
        "\<forall>f < length m. m' ! f = (if f \<in> set fs then k else (m[a := k]) ! f)"
    by auto
  show ?case
    using a m' by (auto simp: nth_list_update)
qed

lemma remove_featureless_kind_spec:
  fixes st :: "('c, 'm, 'p, 'r, 'v) KindKernel"
  defines "ks \<equiv> kinds (cross_cat st)" and "m \<equiv> featureid_to_kindid (cross_cat st)"
  assumes k: "kindid < length ks"
    and empty: "featureids (ks ! kindid) = {}"
    and al: "aligned st"
    and fin: "finite (featureids (last ks))"
    and range: "\<forall>f \<in> featureids (last ks). f < length m"
  shows "\<exists>m'. remove_featureless_kind kindid st =
           Inr (st\<lparr>cross_cat := (cross_cat st)\<lparr>kinds := packed_remove kindid ks,
                                                featureid_to_kindid := m'\<rparr>,
                   assignments := (assignments st)
                     \<lparr>kind_queues := packed_remove kindid (kind_queues (assignments st))\<rparr>\<rparr>) \<and>
         length m' = length m \<and>
         (\<forall>f < length m. m' ! f =
            (if Suc kindid < length ks \<and> f \<in> featureids (last ks) then kindid else m ! f))"
proof (cases "Suc kindid < length ks")
  case True
  then have nth: "packed_remove kindid ks ! kindid = last ks"
    by (simp add: nth_packed_remove)
  have len: "kindid < length (packed_remove kindid ks)"
    using True by (simp add: length_packed_remove)
  have "\<forall>f \<in> set (sorted_list_of_set (featureids (last ks))). f < length m"
    using fin range by simp
  from repoint_spec[OF this, of kindid] obtain m' where
    m': "repoint (sorted_list_of_set (featureids (last ks))) kindid m = Inr m'"
        "length m' = length m"
        "\<forall>f < length m. m' ! f = (if f \<in> set (sorted_list_of_set (featureids (last ks))) then kindid else m ! f)"
    by blast
  have "remove_featureless_kind kindid st =
           Inr (st\<lparr>cross_cat := (cross_cat st)\<lparr>kinds := packed_remove kindid ks,
                                                featureid_to_kindid := m'\<rparr>,
                   assignments := (assignments st)
                     \<lparr>kind_queues := packed_remove kindid (kind_queues (assignments st))\<rparr>\<rparr>)"
    using k empty al len nth m'(1)
    by (simp add: remove_featureless_kind_def Let_def ks_def m_def aligned_def)
  then show ?thesis using m'(2,3) True fin by auto
next
  case False
  then have len: "\<not> kindid < length (packed_remove kindid ks)"
    using k by (simp add: length_packed_remove)
  have "remove_featureless_kind kindid st =
           Inr (st\<lparr>cross_cat := (cross_cat st)\<lparr>kinds := packed_remove kindid ks,
                                                featureid_to_kindid := m\<rparr>,
                   assignments := (assignments st)
                     \<lparr>kind_queues := packed_remove kindid (kind_queues (assignments st))\<rparr>\<rparr>)"
    using k empty al len
    by (simp add: remove_featureless_kind_def Let_def ks_def m_def aligned_def)
  then show ?thesis using False by auto
qed

declare remove_empty_from.simps [simp del]

lemma set_packed_remove: "set (packed_remove pos xs) \<subseteq> set xs"
  unfolding packed_remove_def
  by (cases "xs = []") (auto dest!: in_set_butlastD set_update_subset_insert[THEN subsetD])

lemma remove_featureless_kind_valid:
  fixes st :: "('c, 'm, 'p, 'r, 'v) KindKernel"
  defines "ks \<equiv> kinds (cross_cat st)" and "m \<equiv> featureid_to_kindid (cross_cat st)"
  assumes v: "CrossCat_valid (cross_cat st)" and al: "aligned st"
    and k: "kindid < length ks" and empty: "featureids (ks ! kindid) = {}"
  shows "\<exists>m'. remove_featureless_kind kindid st =
           Inr (st\<lparr>cross_cat := (cross_cat st)\<lparr>kinds := packed_remove kindid ks,
                                                featureid_to_kindid := m'\<rparr>,
                   assignments := (assignments st)
                     \<lparr>kind_queues := packed_remove kindid (kind_queues (assignments st))\<rparr>\<rparr>) \<and>
         length m' = length m \<and>
         (\<forall>f < length m. m' ! f =
            (if Suc kindid < length ks \<and> f \<in> featureids (last ks) then kindid else m ! f)) \<and>
         CrossCat_valid ((cross_cat st)\<lparr>kinds := packed_remove kindid ks,
                                        featureid_to_kindid := m'\<rparr>)"
proof -
  have ne: "ks \<noteq> []" using k by auto
  define n where "n = length ks - 1"
  have n: "n < length ks" "last ks = ks ! n" "length ks = Suc n"
    using ne by (auto simp: n_def last_conv_nth)
  have V1: "\<And>f. f < length m \<Longrightarrow> m ! f < length ks \<and> f \<in> featureids (ks ! (m ! f))"
    and V2: "\<And>k f. k < length ks \<Longrightarrow> f \<in> featureids (ks ! k) \<Longrightarrow> f < length m \<and> m ! f = k"
    using v by (auto simp: CrossCat_valid_iff ks_def m_def)
  have fin: "finite (featureids (last ks))"
    using valid_finite_featureids[OF v, of n] n by (simp add: ks_def)
  have range: "\<forall>f \<in> featureids (last ks). f < length m"
    using V2[of n] n by auto
  from remove_featureless_kind_spec[of kindid st, folded ks_def m_def, OF k empty al fin range]
  obtain m' where m'all:
    "remove_featureless_kind kindid st =
           Inr (st\<lparr>cross_cat := (cross_cat st)\<lparr>kinds := packed_remove kindid ks,
                                                featureid_to_kindid := m'\<rparr>,
                   assignments := (assignments st)
                     \<lparr>kind_queues := packed_remove kindid (kind_queues (assignments st))\<rparr>\<rparr>) \<and>
    length m' = length m \<and>
    (\<forall>f < length m. m' ! f =
            (if Suc kindid < length ks \<and> f \<in> featureids (last ks) then kindid else m ! f))"
    ..
  note m' = conjunct1[OF m'all] conjunct1[OF conjunct2[OF m'all]] conjunct2[OF conjunct2[OF m'all]]
  let ?ks' = "packed_remove kindid ks"
  have len': "length ?ks' = n" using n(3) by (simp add: length_packed_remove)
  have nth': "\<And>j. j < n \<Longrightarrow> ?ks' ! j = (if j = kindid then ks ! n else ks ! j)"
    using n by (simp add: nth_packed_remove)
  have A: "m' ! f < n \<and> f \<in> featureids (?ks' ! (m' ! f))" if f: "f < length m" for f
  proof (cases "Suc kindid < length ks \<and> f \<in> featureids (ks ! n)")
    case True
    then have "m' ! f = kindid" using m'(3) f n by auto
    moreover have "kindid < n" using True n by simp
    ultimately show ?thesis using True nth' by simp
  next
    case False
    then have eq: "m' ! f = m ! f" using m'(3) f n by auto
    have in1: "m ! f < length ks" "f \<in> featureids (ks ! (m ! f))" using V1[OF f] by auto
    have "m ! f \<noteq> kindid" using in1 empty by auto
    moreover have "m ! f \<noteq> n"
    proof
      assume mn: "m ! f = n"
      then have "f \<in> featureids (ks ! n)" using in1 by simp
      with False have "\<not> Suc kindid < length ks" by simp
      with k n have "kindid = n" by simp
      with empty \<open>f \<in> featureids (ks ! n)\<close> show False by simp
    qed
    ultimately show ?thesis using in1 eq nth' n by auto
  qed
  have B: "f < length m \<and> m' ! f = j" if j: "j < n" and f: "f \<in> featureids (?ks' ! j)" for j f
  proof (cases "j = kindid")
    case True
    then have fl: "f \<in> featureids (ks ! n)" using f nth' j by simp
    then have "f < length m" using V2[of n f] n by simp
    moreover have "Suc kindid < length ks" using True j n by simp
    ultimately show ?thesis using m'(3) fl True n by auto
  next
    case False
    then have fj: "f \<in> featureids (ks ! j)" using f nth' j by simp
    then have 1: "f < length m" "m ! f = j" using V2[of j f] j n by auto
    have "f \<notin> featureids (ks ! n)"
    proof
      assume "f \<in> featureids (ks ! n)"
      then have "m ! f = n" using V2[of n f] n by simp
      with 1 j show False by simp
    qed
    then show ?thesis using m'(3) 1 n by auto
  qed
  have "CrossCat_valid ((cross_cat st)\<lparr>kinds := ?ks', featureid_to_kindid := m'\<rparr>)"
    using A B by (auto simp: CrossCat_valid_iff len' m'(2))
  with m'all show ?thesis by (intro exI[of _ m']) simp
qed

lemma mset_packed_remove:
  assumes "pos < length xs"
  shows "mset (packed_remove pos xs) = mset xs - {#xs ! pos#}"
proof (cases "Suc pos < length xs")
  case True
  let ?ys = "xs[pos := last xs]"
  have ne: "?ys \<noteq> []" using assms by auto
  have l: "last ?ys = last xs"
    using assms by (cases "xs = []") (simp_all add: last_list_update)
  have "mset (butlast ?ys) = mset ?ys - {#last ?ys#}"
    using ne by (metis append_butlast_last_id mset_append mset.simps(2) mset.simps(1) add_diff_cancel_right' add_mset_add_single)
  also have "\<dots> = add_mset (last xs) (mset xs - {#xs ! pos#}) - {#last xs#}"
    using assms by (simp add: l mset_update)
  finally show ?thesis using True by (simp add: packed_remove_def)
next
  case False
  then have p: "pos = length xs - 1" and ne: "xs \<noteq> []" using assms by auto
  have "mset (butlast xs) = mset xs - {#last xs#}"
    using ne by (metis append_butlast_last_id mset_append mset.simps(2) mset.simps(1) add_diff_cancel_right' add_mset_add_single)
  then show ?thesis using False p ne by (simp add: packed_remove_def last_conv_nth)
qed

lemma remove_empty_from_spec:
  fixes st :: "('c, 'm, 'p, 'r, 'v) KindKernel"
  assumes "CrossCat_valid (cross_cat st)" and "aligned st"
    and "j \<le> length (kinds (cross_cat st))"
    and "\<forall>k. j \<le> k \<and> k < length (kinds (cross_cat st)) \<longrightarrow>
             featureids (kinds (cross_cat st) ! k) \<noteq> {}"
  shows "\<exists>ks' m' qs'.
      remove_empty_from (int j - 1) st =
        Inr (st\<lparr>cross_cat := (cross_cat st)\<lparr>kinds := ks', featureid_to_kindid := m'\<rparr>,
                assignments := (assignments st)\<lparr>kind_queues := qs'\<rparr>\<rparr>) \<and>
      CrossCat_valid ((cross_cat st)\<lparr>kinds := ks', featureid_to_kindid := m'\<rparr>) \<and>
      length qs' = length ks' \<and>
      set qs' \<subseteq> set (kind_queues (assignments st)) \<and>
      (\<forall>k \<in> set ks'. featureids k \<noteq> {}) \<and>
      mset ks' = filter_mset (\<lambda>k. featureids k \<noteq> {}) (mset (kinds (cross_cat st))) \<and>
      length m' = length (featureid_to_kindid (cross_cat st))"
  using assms
proof (induction j arbitrary: st)
  case 0
  let ?ks = "kinds (cross_cat st)"
  have all: "\<forall>k \<in> set ?ks. featureids k \<noteq> {}"
    using 0(4) by (auto simp: in_set_conv_nth)
  then have "filter_mset (\<lambda>k. featureids k \<noteq> {}) (mset ?ks) = mset ?ks"
    by (simp add: filter_mset_eq_conv)
  with all 0 show ?case
    by (intro exI[of _ ?ks] exI[of _ "featureid_to_kindid (cross_cat st)"]
          exI[of _ "kind_queues (assignments st)"])
       (simp add: remove_empty_from.simps[of "-1"] aligned_def)
next
  case (Suc j)
  let ?ks = "kinds (cross_cat st)"
  have jl: "j < length ?ks" using Suc.prems by simp
  have e: "int (Suc j) - 1 = int j" by simp
  have unf: "remove_empty_from (int (Suc j) - 1) st =
      (if featureids (?ks ! j) = {} then
        (case remove_featureless_kind j st of
           Inl e \<Rightarrow> Inl e
         | Inr st' \<Rightarrow> remove_empty_from (int j - 1) st')
      else remove_empty_from (int j - 1) st)"
    unfolding e using jl by (subst remove_empty_from.simps) simp
  show ?case
  proof (cases "featureids (?ks ! j) = {}")
    case False
    have "\<forall>k. j \<le> k \<and> k < length ?ks \<longrightarrow> featureids (?ks ! k) \<noteq> {}"
      using Suc.prems(4) False by (metis Suc_leI le_neq_implies_less)
    from Suc.IH[OF Suc.prems(1,2) _ this] jl show ?thesis
      unfolding unf using False by simp
  next
    case True
    from remove_featureless_kind_valid[OF Suc.prems(1,2) jl True]
    obtain m1 where r:
      "remove_featureless_kind j st =
           Inr (st\<lparr>cross_cat := (cross_cat st)\<lparr>kinds := packed_remove j ?ks,
                                                featureid_to_kindid := m1\<rparr>,
                   assignments := (assignments st)
                     \<lparr>kind_queues := packed_remove j (kind_queues (assignments st))\<rparr>\<rparr>) \<and>
         length m1 = length (featureid_to_kindid (cross_cat st)) \<and>
         (\<forall>f < length (featureid_to_kindid (cross_cat st)). m1 ! f =
            (if Suc j < length ?ks \<and> f \<in> featureids (last ?ks) then j
             else featureid_to_kindid (cross_cat st) ! f)) \<and>
         CrossCat_valid ((cross_cat st)\<lparr>kinds := packed_remove j ?ks,
                                        featureid_to_kindid := m1\<rparr>)"
      ..
    define st1 where "st1 = st\<lparr>cross_cat := (cross_cat st)\<lparr>kinds := packed_remove j ?ks,
                                                featureid_to_kindid := m1\<rparr>,
                   assignments := (assignments st)
                     \<lparr>kind_queues := packed_remove j (kind_queues (assignments st))\<rparr>\<rparr>"
    have r1: "remove_featureless_kind j st = Inr st1" using r by (simp add: st1_def)
    have v1: "CrossCat_valid (cross_cat st1)" using r by (simp add: st1_def)
    have a1: "aligned st1" using Suc.prems(2) by (simp add: st1_def aligned_def length_packed_remove)
    have l1: "j \<le> length (kinds (cross_cat st1))"
      using jl by (simp add: st1_def length_packed_remove)
    have ne: "?ks \<noteq> []" using jl by auto
    have n1: "\<forall>k. j \<le> k \<and> k < length (kinds (cross_cat st1)) \<longrightarrow>
             featureids (kinds (cross_cat st1) ! k) \<noteq> {}"
    proof (intro allI impI)
      fix k assume k: "j \<le> k \<and> k < length (kinds (cross_cat st1))"
      then have kl: "k < length ?ks - 1" by (simp add: st1_def length_packed_remove)
      have "kinds (cross_cat st1) ! k = (if k = j then last ?ks else ?ks ! k)"
        using kl by (simp add: st1_def nth_packed_remove)
      moreover have "featureids (last ?ks) \<noteq> {}"
        using Suc.prems(4)[rule_format, of "length ?ks - 1"] kl k ne
        by (simp add: last_conv_nth)
      moreover have "k \<noteq> j \<Longrightarrow> featureids (?ks ! k) \<noteq> {}"
        using Suc.prems(4)[rule_format, of k] kl k by simp
      ultimately show "featureids (kinds (cross_cat st1) ! k) \<noteq> {}" by auto
    qed
    from Suc.IH[OF v1 a1 l1 n1] obtain ks' m' qs' where ih:
      "remove_empty_from (int j - 1) st1 =
        Inr (st1\<lparr>cross_cat := (cross_cat st1)\<lparr>kinds := ks', featureid_to_kindid := m'\<rparr>,
                assignments := (assignments st1)\<lparr>kind_queues := qs'\<rparr>\<rparr>) \<and>
      CrossCat_valid ((cross_cat st1)\<lparr>kinds := ks', featureid_to_kindid := m'\<rparr>) \<and>
      length qs' = length ks' \<and>
      set qs' \<subseteq> set (kind_queues (assignments st1)) \<and>
      (\<forall>k \<in> set ks'. featureids k \<noteq> {}) \<and>
      mset ks' = filter_mset (\<lambda>k. featureids k \<noteq> {}) (mset (kinds (cross_cat st1))) \<and>
      length m' = length (featureid_to_kindid (cross_cat st1))"
      by (elim exE) (rule that)
    have ms: "filter_mset (\<lambda>k. featureids k \<noteq> {}) (mset (kinds (cross_cat st1))) =
              filter_mset (\<lambda>k. featureids k \<noteq> {}) (mset ?ks)"
      using True jl by (simp add: st1_def mset_packed_remove filter_diff_mset)
    have qs: "set (kind_queues (assignments st1)) \<subseteq> set (kind_queues (assignments st))"
      by (simp add: st1_def set_packed_remove)
    have "remove_empty_from (int (Suc j) - 1) st = remove_empty_from (int j - 1) st1"
      unfolding unf using True r1 by simp
    with ih ms qs r show ?thesis
      by (intro exI[of _ ks'] exI[of _ m'] exI[of _ qs']) (auto simp: st1_def)
  qed
qed

lemma fold_max_group_count:
  "fold (\<lambda>groupid group_count. max group_count (Suc groupid)) v a =
     (if v = [] then a else max a (Suc (Max (set v))))"
proof (induction v arbitrary: a)
  case Nil
  then show ?case by simp
next
  case (Cons g v)
  show ?case
  proof (cases "v = []")
    case True
    then show ?thesis by simp
  next
    case False
    then show ?thesis
      using Cons.IH[of "max a (Suc g)"] by (simp add: max.assoc)
  qed
qed

lemma max_group_count_eq:
  "max_group_count v = (if v = [] then 0 else Suc (Max (set v)))"
  by (simp add: max_group_count_def fold_max_group_count)

lemma fold_push_and_count:
  "fold (\<lambda>groupid (queue, counts). (queue @ [groupid], counts[groupid := counts ! groupid + 1]))
       v (q, c) = (q', c') \<Longrightarrow>
   q' = q @ v \<and> length c' = length c \<and>
   (\<forall>g < length c. c' ! g = c ! g + count_list v g)"
proof (induction v arbitrary: q c)
  case Nil
  then show ?case by simp
next
  case (Cons a v)
  from Cons.prems have
    "fold (\<lambda>groupid (queue, counts). (queue @ [groupid], counts[groupid := counts ! groupid + 1]))
       v (q @ [a], c[a := c ! a + 1]) = (q', c')"
    by simp
  from Cons.IH[OF this] show ?case
    by (auto simp: nth_list_update)
qed

lemma push_and_count_spec:
  "push_and_count v c = (q', c') \<Longrightarrow>
   q' = v \<and> length c' = length c \<and> (\<forall>g < length c. c' ! g = c ! g + count_list v g)"
  unfolding push_and_count_def by (drule fold_push_and_count) simp

lemma fst_push_and_count: "fst (push_and_count v c) = v"
  using push_and_count_spec[of v c "fst (push_and_count v c)" "snd (push_and_count v c)"]
  by simp

lemma snd_push_and_count:
  "length (snd (push_and_count v c)) = length c \<and>
   (\<forall>g < length c. snd (push_and_count v c) ! g = c ! g + count_list v g)"
  using push_and_count_spec[of v c "fst (push_and_count v c)" "snd (push_and_count v c)"]
  by simp

lemma add_featureless_kind_eq:
  fixes env :: "('c, 'm, 'p, 'r, 'v) Collaborators" and st :: "('c, 'm, 'p, 'r, 'v) KindKernel"
  defines "grid \<equiv> hyper_prior_clustering (cross_cat st)"
  defines "c \<equiv> (if grid \<noteq> [] then fst (sample_clustering_prior env grid (rng st))
                 else (map clustering (kinds (cross_cat st)) @ [default_clustering env]) ! 0)"
  defines "r1 \<equiv> (if grid \<noteq> [] then snd (sample_clustering_prior env grid (rng st)) else rng st)"
  defines "vec \<equiv> fst (sample_assignments env c (row_count (assignments st)) r1)"
  defines "r2 \<equiv> snd (sample_assignments env c (row_count (assignments st)) r1)"
  defines "counts \<equiv> snd (push_and_count vec
                      (replicate (max_group_count vec + empty_group_count st) 0))"
  shows "add_featureless_kind env st =
       st\<lparr>cross_cat := (cross_cat st)\<lparr>kinds := kinds (cross_cat st) @
              [\<lparr>clustering = c, mixture = fst (init_unobserved env c counts r2), featureids = {}\<rparr>]\<rparr>,
          assignments := (assignments st)
             \<lparr>kind_queues := kind_queues (assignments st) @ [vec]\<rparr>,
          rng := snd (init_unobserved env c counts r2)\<rparr>"
  unfolding add_featureless_kind_def Let_def packed_add_def counts_def r2_def vec_def r1_def c_def grid_def
  by (simp add: case_prod_beta fst_push_and_count)

lemma add_featureless_kind_shape:
  fixes env :: "('c, 'm, 'p, 'r, 'v) Collaborators" and st :: "('c, 'm, 'p, 'r, 'v) KindKernel"
  shows "\<exists>kind queue r.
     add_featureless_kind env st =
       st\<lparr>cross_cat := (cross_cat st)\<lparr>kinds := kinds (cross_cat st) @ [kind]\<rparr>,
          assignments := (assignments st)
             \<lparr>kind_queues := kind_queues (assignments st) @ [queue]\<rparr>,
          rng := r\<rparr> \<and>
     featureids kind = {} \<and>
     (samples_every_row env \<longrightarrow> length queue = row_count (assignments st))"
  by (subst add_featureless_kind_eq, intro exI conjI, rule refl) (simp_all add: samples_every_row_def)

lemma add_kinds_shape:
  fixes env :: "('c, 'm, 'p, 'r, 'v) Collaborators" and st :: "('c, 'm, 'p, 'r, 'v) KindKernel"
  shows "\<exists>new_kinds new_queues r.
     add_kinds env n st =
       st\<lparr>cross_cat := (cross_cat st)\<lparr>kinds := kinds (cross_cat st) @ new_kinds\<rparr>,
          assignments := (assignments st)
             \<lparr>kind_queues := kind_queues (assignments st) @ new_queues\<rparr>,
          rng := r\<rparr> \<and>
     length new_kinds = n \<and> length new_queues = n \<and>
     (\<forall>k \<in> set new_kinds. featureids k = {}) \<and>
     (samples_every_row env \<longrightarrow> (\<forall>q \<in> set new_queues. length q = row_count (assignments st)))"
proof (induction n arbitrary: st)
  case 0
  show ?case
    by (intro exI[of _ "[]"] exI[of _ "rng st"]) simp
next
  case (Suc n)
  obtain kind queue r where a:
    "add_featureless_kind env st =
       st\<lparr>cross_cat := (cross_cat st)\<lparr>kinds := kinds (cross_cat st) @ [kind]\<rparr>,
          assignments := (assignments st)
             \<lparr>kind_queues := kind_queues (assignments st) @ [queue]\<rparr>,
          rng := r\<rparr> \<and>
     featureids kind = {} \<and>
     (samples_every_row env \<longrightarrow> length queue = row_count (assignments st))"
    using add_featureless_kind_shape[of env st] by (elim exE) (rule that)
  define st1 where "st1 = add_featureless_kind env st"
  obtain nk nq r' where b:
    "add_kinds env n st1 =
       st1\<lparr>cross_cat := (cross_cat st1)\<lparr>kinds := kinds (cross_cat st1) @ nk\<rparr>,
          assignments := (assignments st1)
             \<lparr>kind_queues := kind_queues (assignments st1) @ nq\<rparr>,
          rng := r'\<rparr> \<and>
     length nk = n \<and> length nq = n \<and>
     (\<forall>k \<in> set nk. featureids k = {}) \<and>
     (samples_every_row env \<longrightarrow> (\<forall>q \<in> set nq. length q = row_count (assignments st1)))"
    using Suc.IH[of st1] by (elim exE) (rule that)
  have s1: "st1 = st\<lparr>cross_cat := (cross_cat st)\<lparr>kinds := kinds (cross_cat st) @ [kind]\<rparr>,
          assignments := (assignments st)
             \<lparr>kind_queues := kind_queues (assignments st) @ [queue]\<rparr>,
          rng := r\<rparr>"
    using a by (simp add: st1_def)
  have "add_kinds env (Suc n) st = add_kinds env n st1" by (simp add: st1_def)
  with b a show ?case
    by (intro exI[of _ "kind # nk"] exI[of _ "queue # nq"] exI[of _ r']) (auto simp: s1)
qed

lemma valid_append_featureless:
  assumes "CrossCat_valid cc" "\<forall>k \<in> set new. featureids k = {}"
  shows "CrossCat_valid (cc\<lparr>kinds := kinds cc @ new\<rparr>)"
proof -
  let ?m = "featureid_to_kindid cc" and ?ks = "kinds cc"
  have V1: "\<And>f. f < length ?m \<Longrightarrow> ?m ! f < length ?ks \<and> f \<in> featureids (?ks ! (?m ! f))"
    and V2: "\<And>k f. k < length ?ks \<Longrightarrow> f \<in> featureids (?ks ! k) \<Longrightarrow> f < length ?m \<and> ?m ! f = k"
    using assms(1) by (auto simp: CrossCat_valid_iff)
  have A: "?m ! f < length (?ks @ new) \<and> f \<in> featureids ((?ks @ new) ! (?m ! f))"
    if "f < length ?m" for f
    using V1[OF that] by (simp add: nth_append)
  have B: "f < length ?m \<and> ?m ! f = k"
    if k: "k < length (?ks @ new)" and f: "f \<in> featureids ((?ks @ new) ! k)" for k f
  proof (cases "k < length ?ks")
    case True
    then show ?thesis using V2[of k f] f by (simp add: nth_append)
  next
    case False
    then have "(?ks @ new) ! k \<in> set new" using k by (simp add: nth_append)
    then show ?thesis using assms(2) f by auto
  qed
  show ?thesis
    unfolding CrossCat_valid_iff using A B by simp
qed

lemma CrossCat_valid_cong:
  "kinds a = kinds b \<Longrightarrow> featureid_to_kindid a = featureid_to_kindid b \<Longrightarrow>
   CrossCat_valid a = CrossCat_valid b"
  by (simp add: CrossCat_valid_def)

lemma init_featureless_kinds_ok:
  fixes env :: "('c, 'm, 'p, 'r, 'v) Collaborators" and st :: "('c, 'm, 'p, 'r, 'v) KindKernel"
  assumes v: "CrossCat_valid (cross_cat st)" and al: "aligned st"
    and av: "Assignments_valid (assignments st)" and se: "samples_every_row env"
  shows "\<exists>ks' m' qs' r.
      init_featureless_kinds env n st =
        Inr (st\<lparr>cross_cat := (cross_cat st)\<lparr>kinds := ks', featureid_to_kindid := m'\<rparr>,
                assignments := (assignments st)\<lparr>kind_queues := qs'\<rparr>, rng := r\<rparr>) \<and>
      CrossCat_valid ((cross_cat st)\<lparr>kinds := ks', featureid_to_kindid := m'\<rparr>) \<and>
      length qs' = length ks' \<and>
      Assignments_valid ((assignments st)\<lparr>kind_queues := qs'\<rparr>) \<and>
      length (filter (\<lambda>k. featureids k = {}) ks') = n \<and>
      filter_mset (\<lambda>k. featureids k \<noteq> {}) (mset ks') =
        filter_mset (\<lambda>k. featureids k \<noteq> {}) (mset (kinds (cross_cat st))) \<and>
      length m' = length (featureid_to_kindid (cross_cat st))"
proof -
  let ?ks = "kinds (cross_cat st)"
  have "\<exists>ks1 m1 qs1.
      remove_empty_from (int (length ?ks) - 1) st =
        Inr (st\<lparr>cross_cat := (cross_cat st)\<lparr>kinds := ks1, featureid_to_kindid := m1\<rparr>,
                assignments := (assignments st)\<lparr>kind_queues := qs1\<rparr>\<rparr>) \<and>
      CrossCat_valid ((cross_cat st)\<lparr>kinds := ks1, featureid_to_kindid := m1\<rparr>) \<and>
      length qs1 = length ks1 \<and>
      set qs1 \<subseteq> set (kind_queues (assignments st)) \<and>
      (\<forall>k \<in> set ks1. featureids k \<noteq> {}) \<and>
      mset ks1 = filter_mset (\<lambda>k. featureids k \<noteq> {}) (mset ?ks) \<and>
      length m1 = length (featureid_to_kindid (cross_cat st))"
    by (rule remove_empty_from_spec[OF v al]) auto
  then obtain ks1 m1 qs1 where p1:
      "remove_empty_from (int (length ?ks) - 1) st =
        Inr (st\<lparr>cross_cat := (cross_cat st)\<lparr>kinds := ks1, featureid_to_kindid := m1\<rparr>,
                assignments := (assignments st)\<lparr>kind_queues := qs1\<rparr>\<rparr>)"
      "CrossCat_valid ((cross_cat st)\<lparr>kinds := ks1, featureid_to_kindid := m1\<rparr>)"
      "length qs1 = length ks1"
      "set qs1 \<subseteq> set (kind_queues (assignments st))"
      "\<forall>k \<in> set ks1. featureids k \<noteq> {}"
      "mset ks1 = filter_mset (\<lambda>k. featureids k \<noteq> {}) (mset ?ks)"
      "length m1 = length (featureid_to_kindid (cross_cat st))"
    by (elim exE conjE) (rule that)
  define st1 where "st1 = st\<lparr>cross_cat := (cross_cat st)\<lparr>kinds := ks1, featureid_to_kindid := m1\<rparr>,
                assignments := (assignments st)\<lparr>kind_queues := qs1\<rparr>\<rparr>"
  obtain nk nq r where p2:
    "add_kinds env n st1 =
       st1\<lparr>cross_cat := (cross_cat st1)\<lparr>kinds := kinds (cross_cat st1) @ nk\<rparr>,
          assignments := (assignments st1)
             \<lparr>kind_queues := kind_queues (assignments st1) @ nq\<rparr>,
          rng := r\<rparr>"
     "length nk = n" "length nq = n"
     "\<forall>k \<in> set nk. featureids k = {}"
     "samples_every_row env \<longrightarrow> (\<forall>q \<in> set nq. length q = row_count (assignments st1))"
    using add_kinds_shape[of env n st1] by (elim exE conjE) (rule that)
  define st2 where "st2 = st\<lparr>cross_cat := (cross_cat st)\<lparr>kinds := ks1 @ nk, featureid_to_kindid := m1\<rparr>,
                assignments := (assignments st)\<lparr>kind_queues := qs1 @ nq\<rparr>, rng := r\<rparr>"
  have e2: "add_kinds env n st1 = st2"
    unfolding p2(1) by (simp add: st1_def st2_def)
  have v2: "CrossCat_valid ((cross_cat st)\<lparr>kinds := ks1 @ nk, featureid_to_kindid := m1\<rparr>)"
    using valid_append_featureless[OF p1(2) p2(4)]
    by (subst CrossCat_valid_cong[where b = "(cross_cat st)\<lparr>kinds := ks1, featureid_to_kindid := m1,
                  kinds := kinds ((cross_cat st)\<lparr>kinds := ks1, featureid_to_kindid := m1\<rparr>) @ nk\<rparr>"])
       simp_all
  have av2: "Assignments_valid ((assignments st)\<lparr>kind_queues := qs1 @ nq\<rparr>)"
    using av p1(4) p2(5) se by (auto simp: Assignments_valid_def st1_def)
  have "init_featureless_kinds env n st = Inr st2"
    unfolding init_featureless_kinds_def p1(1) st1_def[symmetric]
    using v2 av2
    by (simp add: e2 CrossCat_validate_def Assignments_validate_def) (simp add: st2_def)
  moreover have "length (filter (\<lambda>k. featureids k = {}) (ks1 @ nk)) = n"
    using p1(5) p2(2,4) by (simp add: filter_empty_conv filter_True)
  moreover have "filter_mset (\<lambda>k. featureids k \<noteq> {}) (mset (ks1 @ nk)) =
        filter_mset (\<lambda>k. featureids k \<noteq> {}) (mset ?ks)"
  proof -
    have "filter_mset (\<lambda>k. featureids k \<noteq> {}) (mset nk) = {#}"
      using p2(4) by simp
    moreover have "filter_mset (\<lambda>k. featureids k \<noteq> {}) (mset ks1) = mset ks1"
      using p1(5) by (simp add: filter_mset_eq_conv)
    ultimately show ?thesis using p1(6) by simp
  qed
  ultimately show ?thesis
    using v2 av2 p1(3,7) p2(2,3)
    by (intro exI[of _ "ks1 @ nk"] exI[of _ m1] exI[of _ "qs1 @ nq"] exI[of _ r])
       (simp add: st2_def)
qed

lemma remove_featureless_kind_kinds:
  "remove_featureless_kind kindid st = Inr st' \<Longrightarrow>
   kinds (cross_cat st') = packed_remove kindid (kinds (cross_cat st)) \<and>
   kindid < length (kinds (cross_cat st)) \<and> featureids (kinds (cross_cat st) ! kindid) = {}"
  by (auto simp: remove_featureless_kind_def Let_def split: if_splits sum.splits)

lemma remove_empty_from_no_featureless:
  "remove_empty_from (int j - 1) st = Inr st' \<Longrightarrow>
   j \<le> length (kinds (cross_cat st)) \<Longrightarrow>
   \<forall>k. j \<le> k \<and> k < length (kinds (cross_cat st)) \<longrightarrow>
             featureids (kinds (cross_cat st) ! k) \<noteq> {} \<Longrightarrow>
   \<forall>k \<in> set (kinds (cross_cat st')). featureids k \<noteq> {}"
proof (induction j arbitrary: st)
  case 0
  then show ?case
    by (auto simp: remove_empty_from.simps[of "-1"] in_set_conv_nth)
next
  case (Suc j)
  let ?ks = "kinds (cross_cat st)"
  have jl: "j < length ?ks" using Suc.prems by simp
  have e: "int (Suc j) - 1 = int j" by simp
  have unf: "remove_empty_from (int (Suc j) - 1) st =
      (if featureids (?ks ! j) = {} then
        (case remove_featureless_kind j st of
           Inl e \<Rightarrow> Inl e
         | Inr st' \<Rightarrow> remove_empty_from (int j - 1) st')
      else remove_empty_from (int j - 1) st)"
    unfolding e using jl by (subst remove_empty_from.simps) simp
  show ?case
  proof (cases "featureids (?ks ! j) = {}")
    case False
    have t: "\<forall>k. j \<le> k \<and> k < length ?ks \<longrightarrow> featureids (?ks ! k) \<noteq> {}"
      using Suc.prems(3) False by (metis Suc_leI le_neq_implies_less)
    have "remove_empty_from (int j - 1) st = Inr st'"
      using Suc.prems(1) False unfolding unf by simp
    from Suc.IH[OF this _ t] jl show ?thesis by simp
  next
    case True
    then obtain st1 where r1: "remove_featureless_kind j st = Inr st1"
      and rest: "remove_empty_from (int j - 1) st1 = Inr st'"
      using Suc.prems(1) unfolding unf by (auto split: sum.splits)
    have k1: "kinds (cross_cat st1) = packed_remove j ?ks"
      using remove_featureless_kind_kinds[OF r1] by simp
    have ne: "?ks \<noteq> []" using jl by auto
    have l1: "j \<le> length (kinds (cross_cat st1))"
      using jl by (simp add: k1 length_packed_remove)
    have n1: "\<forall>k. j \<le> k \<and> k < length (kinds (cross_cat st1)) \<longrightarrow>
             featureids (kinds (cross_cat st1) ! k) \<noteq> {}"
    proof (intro allI impI)
      fix k assume k: "j \<le> k \<and> k < length (kinds (cross_cat st1))"
      then have kl: "k < length ?ks - 1" by (simp add: k1 length_packed_remove)
      have "kinds (cross_cat st1) ! k = (if k = j then last ?ks else ?ks ! k)"
        using kl by (simp add: k1 nth_packed_remove)
      moreover have "featureids (last ?ks) \<noteq> {}"
        using Suc.prems(3)[rule_format, of "length ?ks - 1"] kl k ne
        by (simp add: last_conv_nth)
      moreover have "k \<noteq> j \<Longrightarrow> featureids (?ks ! k) \<noteq> {}"
        using Suc.prems(3)[rule_format, of k] kl k by simp
      ultimately show "featureids (kinds (cross_cat st1) ! k) \<noteq> {}" by auto
    qed
    from Suc.IH[OF rest l1 n1] show ?thesis .
  qed
qed

lemma init_featureless_kinds_count:
  assumes "init_featureless_kinds env n st = Inr st'"
  shows "length (filter (\<lambda>k. featureids k = {}) (kinds (cross_cat st'))) = n"
proof -
  from assms obtain st1 where p1:
    "remove_empty_from (int (length (kinds (cross_cat st))) - 1) st = Inr st1"
    and st': "st' = add_kinds env n st1"
    by (auto simp: init_featureless_kinds_def CrossCat_validate_def Assignments_validate_def
          split: sum.splits if_splits)
  have ne: "\<forall>k \<in> set (kinds (cross_cat st1)). featureids k \<noteq> {}"
    by (rule remove_empty_from_no_featureless[OF p1]) auto
  obtain nk nq r where p2:
    "add_kinds env n st1 =
       st1\<lparr>cross_cat := (cross_cat st1)\<lparr>kinds := kinds (cross_cat st1) @ nk\<rparr>,
          assignments := (assignments st1)
             \<lparr>kind_queues := kind_queues (assignments st1) @ nq\<rparr>,
          rng := r\<rparr>"
     "length nk = n"
     "\<forall>k \<in> set nk. featureids k = {}"
    using add_kinds_shape[of env n st1] by (elim exE conjE) (rule that)
  show ?thesis
    using ne p2(2,3) by (simp add: st' p2(1) filter_empty_conv filter_True)
qed

lemma validate_Inr:
  "validate st = Inr st' \<longleftrightarrow>
     st' = st \<and> CrossCat_valid (cross_cat st) \<and> Assignments_valid (assignments st) \<and> aligned st"
  by (auto simp: validate_def CrossCat_validate_def Assignments_validate_def aligned_def)

lemma untouched_refl: "untouched st st"
  by (simp add: untouched_def)

lemma untouched_trans: "untouched a b \<Longrightarrow> untouched b c \<Longrightarrow> untouched a c"
  by (simp add: untouched_def)

lemma remove_featureless_kind_untouched:
  "remove_featureless_kind kindid st = Inr st' \<Longrightarrow> untouched st st'"
  by (auto simp: remove_featureless_kind_def Let_def untouched_def split: if_splits sum.splits)

lemma remove_empty_from_untouched:
  "remove_empty_from i st = Inr st' \<Longrightarrow> untouched st st'"
proof (induction i st rule: remove_empty_from.induct)
  case (1 i st)
  show ?case
  proof (cases "i < 0")
    case True
    with 1(3) show ?thesis by (simp add: remove_empty_from.simps[of i] untouched_refl)
  next
    case nn: False
    show ?thesis
    proof (cases "featureids (kinds (cross_cat st) ! nat i) = {}")
      case True
      with 1(3) nn obtain st1 where r: "remove_featureless_kind (nat i) st = Inr st1"
        and rest: "remove_empty_from (i - 1) st1 = Inr st'"
        and inr: "nat i < length (kinds (cross_cat st))"
        by (subst (asm) remove_empty_from.simps) (auto split: if_splits sum.splits)
      from 1(1)[OF nn _ True r rest] inr have "untouched st1 st'" by simp
      with remove_featureless_kind_untouched[OF r] show ?thesis by (rule untouched_trans)
    next
      case False
      with 1(3) nn have rest: "remove_empty_from (i - 1) st = Inr st'"
        and inr: "nat i < length (kinds (cross_cat st))"
        by (subst (asm) remove_empty_from.simps, auto split: if_splits)+
      from 1(2)[OF nn _ False rest] inr show ?thesis by simp
    qed
  qed
qed

lemma add_kinds_untouched: "untouched st (add_kinds env n st)"
proof -
  obtain nk nq r where
    "add_kinds env n st =
       st\<lparr>cross_cat := (cross_cat st)\<lparr>kinds := kinds (cross_cat st) @ nk\<rparr>,
          assignments := (assignments st)
             \<lparr>kind_queues := kind_queues (assignments st) @ nq\<rparr>,
          rng := r\<rparr>"
    using add_kinds_shape[of env n st] by (elim exE conjE) (rule that)
  then show ?thesis by (simp add: untouched_def)
qed

lemma init_featureless_kinds_untouched:
  assumes "init_featureless_kinds env n st = Inr st'"
  shows "untouched st st'"
proof -
  from assms obtain st1 where p1:
    "remove_empty_from (int (length (kinds (cross_cat st))) - 1) st = Inr st1"
    and st': "st' = add_kinds env n st1"
    by (auto simp: init_featureless_kinds_def CrossCat_validate_def Assignments_validate_def
          split: sum.splits if_splits)
  show ?thesis
    unfolding st'
    by (rule untouched_trans[OF remove_empty_from_untouched[OF p1] add_kinds_untouched])
qed

lemma init_featureless_kinds_valid:
  assumes "init_featureless_kinds env n st = Inr st'"
  shows "CrossCat_valid (cross_cat st') \<and> Assignments_valid (assignments st')"
  using assms
  by (auto simp: init_featureless_kinds_def CrossCat_validate_def Assignments_validate_def
          split: sum.splits if_splits)

lemma move_feature_to_kind_untouched:
  "move_feature_to_kind env f k st = Inr st' \<Longrightarrow> untouched st st'"
  by (auto simp: move_feature_to_kind_def Let_def untouched_def CrossCat_validate_def
        Assignments_validate_def split: if_splits sum.splits prod.splits)

lemma move_feature_to_kind_length:
  "move_feature_to_kind env f k st = Inr st' \<Longrightarrow>
   length (kinds (cross_cat st')) = length (kinds (cross_cat st))"
  by (auto simp: move_feature_to_kind_def Let_def CrossCat_validate_def
        Assignments_validate_def split: if_splits sum.splits prod.splits)

lemma apply_moves_untouched:
  "apply_moves env old new fs c st = Inr (c', st') \<Longrightarrow>
   untouched st st' \<and> length (kinds (cross_cat st')) = length (kinds (cross_cat st)) \<and>
   c' = c + length (filter (\<lambda>f. new ! f \<noteq> old ! f) fs)"
proof (induction fs arbitrary: c st)
  case Nil
  then show ?case by (simp add: untouched_refl)
next
  case (Cons f fs)
  show ?case
  proof (cases "new ! f \<noteq> old ! f")
    case True
    with Cons.prems obtain st1 where m: "move_feature_to_kind env f (new ! f) st = Inr st1"
      and rest: "apply_moves env old new fs (c + 1) st1 = Inr (c', st')"
      by (auto simp: Let_def split: if_splits sum.splits)
    from Cons.IH[OF rest] move_feature_to_kind_untouched[OF m] move_feature_to_kind_length[OF m] True
    show ?thesis by (auto intro: untouched_trans)
  next
    case False
    with Cons.prems have rest: "apply_moves env old new fs c st = Inr (c', st')"
      by (auto simp: Let_def split: if_splits)
    from Cons.IH[OF rest] False show ?thesis by simp
  qed
qed

lemma try_run_InrE:
  assumes "try_run env st = Inr (b, st')"
  obtains new_kindids t_tare t_score t_sample proposer rng1 changed st2 kind_states1
    kind_states state_counts st5
  where "check_row_counts env True st = Inr st"
    and "validate st = Inr st"
    and "infer_assignments env (tare st) (cross_cat st) (featureid_to_kindid (cross_cat st))
           (iterations st) (score_parallel st) (kind_proposer st) (rng st) =
         (new_kindids, (t_tare, t_score, t_sample), proposer, rng1)"
    and "apply_moves env (featureid_to_kindid (cross_cat st)) new_kindids
           [0..<length (featureid_to_kindid (cross_cat st))] 0
           (st\<lparr>kind_proposer := proposer, rng := rng1,
               tare_time := t_tare, score_time := t_score, sample_time := t_sample\<rparr>) =
         Inr (changed, st2)"
    and "mark_old (featureid_to_kindid (cross_cat st))
           (replicate (length (kinds (cross_cat st2))) 0) = Inr kind_states1"
    and "mark_new new_kindids kind_states1 = Inr kind_states"
    and "tally_states kind_states [0, 0, 0, 0] = Inr state_counts"
    and "init_featureless_kinds env (empty_kind_count st2)
           (st2\<lparr>total_count := length (featureid_to_kindid (cross_cat st)),
                change_count := changed,
                death_count := state_counts ! 1, birth_count := state_counts ! 2\<rparr>) = Inr st5"
    and "st' = st5\<lparr>kind_proposer :=
                     fst (mixture_init_unobserved env (cross_cat st5) (kind_proposer st5) (rng st5)),
                   rng := snd (mixture_init_unobserved env (cross_cat st5) (kind_proposer st5) (rng st5))\<rparr>"
    and "validate st' = Inr st'"
    and "b = (changed > 0)"
proof -
  from assms have c: "check_row_counts env True st = Inr st"
    by (auto simp: try_run_def check_row_counts_def Let_def split: sum.splits if_splits)
  from assms have v: "validate st = Inr st"
    by (auto simp: try_run_def validate_Inr split: sum.splits)
  obtain new_kindids t_tare t_score t_sample proposer rng1 where
    inf: "infer_assignments env (tare st) (cross_cat st) (featureid_to_kindid (cross_cat st))
           (iterations st) (score_parallel st) (kind_proposer st) (rng st) =
         (new_kindids, (t_tare, t_score, t_sample), proposer, rng1)"
    by (metis prod_cases3 prod.collapse)
  define st1 where "st1 = st\<lparr>kind_proposer := proposer, rng := rng1,
               tare_time := t_tare, score_time := t_score, sample_time := t_sample\<rparr>"
  let ?old = "featureid_to_kindid (cross_cat st)"
  from assms c v inf have 1: "(case apply_moves env ?old new_kindids [0..<length ?old] 0 st1 of
        Inl e \<Rightarrow> Inl e
      | Inr (changed, st2) \<Rightarrow>
     (let st3 = st2\<lparr>total_count := length ?old, change_count := changed\<rparr>;
          kind_count = length (kinds (cross_cat st3))
      in
     (case mark_old ?old (replicate kind_count 0) of
        Inl e \<Rightarrow> Inl (e, st3)
      | Inr kind_states1 \<Rightarrow>
     (case mark_new new_kindids kind_states1 of
        Inl e \<Rightarrow> Inl (e, st3)
      | Inr kind_states \<Rightarrow>
     (case tally_states kind_states [0, 0, 0, 0] of
        Inl e \<Rightarrow> Inl (e, st3)
      | Inr state_counts \<Rightarrow>
     (let st4 = st3\<lparr>death_count := state_counts ! 1, birth_count := state_counts ! 2\<rparr>
      in
     (case init_featureless_kinds env (empty_kind_count st4) st4 of
        Inl e \<Rightarrow> Inl e
      | Inr st5 \<Rightarrow>
     (let (proposer2, rng2) =
            mixture_init_unobserved env (cross_cat st5) (kind_proposer st5) (rng st5);
          st6 = st5\<lparr>kind_proposer := proposer2, rng := rng2\<rparr>
      in
     (case validate st6 of
        Inl e \<Rightarrow> Inl e
      | Inr st7 \<Rightarrow> Inr (changed > 0, st7)))))))))) = Inr (b, st')"
    by (simp add: try_run_def st1_def Let_def)
  then obtain changed st2 where am: "apply_moves env ?old new_kindids [0..<length ?old] 0 st1 = Inr (changed, st2)"
    by (auto split: sum.splits)
  from 1 am obtain kind_states1 where mo:
    "mark_old ?old (replicate (length (kinds (cross_cat st2))) 0) = Inr kind_states1"
    by (auto simp: Let_def split: sum.splits)
  from 1 am mo obtain kind_states where mn: "mark_new new_kindids kind_states1 = Inr kind_states"
    by (auto simp: Let_def split: sum.splits)
  from 1 am mo mn obtain state_counts where ts: "tally_states kind_states [0, 0, 0, 0] = Inr state_counts"
    by (auto simp: Let_def split: sum.splits)
  from 1 am mo mn ts obtain st5 where ini: "init_featureless_kinds env (empty_kind_count st2)
           (st2\<lparr>total_count := length ?old, change_count := changed,
                death_count := state_counts ! 1, birth_count := state_counts ! 2\<rparr>) = Inr st5"
    by (auto simp: Let_def split: sum.splits)
  from 1 am mo mn ts ini have fin:
    "st' = st5\<lparr>kind_proposer :=
                     fst (mixture_init_unobserved env (cross_cat st5) (kind_proposer st5) (rng st5)),
                   rng := snd (mixture_init_unobserved env (cross_cat st5) (kind_proposer st5) (rng st5))\<rparr>"
    "validate st' = Inr st'" "b = (changed > 0)"
    by (auto simp: Let_def case_prod_beta validate_Inr split: sum.splits)
  show ?thesis
    using that[OF c v inf am[unfolded st1_def] mo mn ts ini fin] .
qed

lemma remove_empty_from_count:
  assumes "remove_empty_from (int (length (kinds (cross_cat st))) - 1) st = Inr st1"
  shows "count_featureless (cross_cat st1) = 0"
proof -
  have "\<forall>k \<in> set (kinds (cross_cat st1)). featureids k \<noteq> {}"
    by (rule remove_empty_from_no_featureless[OF assms]) auto
  then show ?thesis by (simp add: count_featureless_def filter_empty_conv)
qed

lemma add_kinds_count:
  "count_featureless (cross_cat (add_kinds env n st)) = count_featureless (cross_cat st) + n \<and>
   length (kinds (cross_cat (add_kinds env n st))) = length (kinds (cross_cat st)) + n"
proof -
  obtain nk nq r where p2:
    "add_kinds env n st =
       st\<lparr>cross_cat := (cross_cat st)\<lparr>kinds := kinds (cross_cat st) @ nk\<rparr>,
          assignments := (assignments st)
             \<lparr>kind_queues := kind_queues (assignments st) @ nq\<rparr>,
          rng := r\<rparr>"
     "length nk = n"
     "\<forall>k \<in> set nk. featureids k = {}"
    using add_kinds_shape[of env n st] by (elim exE conjE) (rule that)
  show ?thesis
    using p2(2,3) by (simp add: p2(1) count_featureless_def filter_True)
qed

lemma KindKernel_new_InrE:
  assumes "KindKernel_new env config tare0 cross_cat0 assignments0 proposer0 rng0 = Inr st'"
  obtains st0 st1 where
    "st0 = \<lparr>empty_group_count = cat_empty_group_count config,
                empty_kind_count = kind_empty_kind_count config,
                iterations = kind_iterations config,
                score_parallel = kind_score_parallel config,
                init_cache = (\<not> hyper_run config),
                tare = tare0, cross_cat = cross_cat0, assignments = assignments0,
                kind_proposer = proposer0, rng = rng0,
                total_count = 0, change_count = 0, birth_count = 0, death_count = 0,
                tare_time = 0, score_time = 0, sample_time = 0\<rparr>"
    and "0 < kind_iterations config" and "0 < kind_empty_kind_count config"
    and "init_featureless_kinds env (kind_empty_kind_count config) st0 = Inr st1"
    and "st' = st1\<lparr>kind_proposer :=
                     fst (mixture_init_unobserved env (cross_cat st1) (kind_proposer st1) (rng st1)),
                   rng := snd (mixture_init_unobserved env (cross_cat st1) (kind_proposer st1) (rng st1))\<rparr>"
    and "validate st' = Inr st'"
  using assms
  by (auto simp: KindKernel_new_def Let_def case_prod_beta validate_Inr
        split: if_splits sum.splits)

lemma KindKernel_delete_InrE:
  assumes "KindKernel_delete env st = Inr st'"
  obtains "init_featureless_kinds env 0
             (st\<lparr>kind_proposer := proposer_clear env (kind_proposer st)\<rparr>) = Inr st'"
    and "validate st' = Inr st'"
  using assms
  by (auto simp: KindKernel_delete_def validate_Inr split: sum.splits)

lemma move_feature_to_kind_ok:
  fixes env :: "('c, 'm, 'p, 'r, 'v) Collaborators" and st :: "('c, 'm, 'p, 'r, 'v) KindKernel"
  defines "ks \<equiv> kinds (cross_cat st)" and "m \<equiv> featureid_to_kindid (cross_cat st)"
  assumes v: "CrossCat_valid (cross_cat st)" and av: "Assignments_valid (assignments st)"
    and f: "featureid < length m" and k: "new_kindid < length ks"
    and ne: "new_kindid \<noteq> m ! featureid"
  shows "\<exists>st'. move_feature_to_kind env featureid new_kindid st = Inr st' \<and>
           CrossCat_valid (cross_cat st') \<and>
           assignments st' = assignments st \<and>
           featureid_to_kindid (cross_cat st') = m[featureid := new_kindid] \<and>
           length (kinds (cross_cat st')) = length ks \<and>
           (\<forall>j < length ks. featureids (kinds (cross_cat st') ! j) =
              (if j = new_kindid then insert featureid (featureids (ks ! j))
               else if j = m ! featureid then featureids (ks ! j) - {featureid}
               else featureids (ks ! j)))"
proof -
  define ok where "ok = m ! featureid"
  have V1: "\<And>g. g < length m \<Longrightarrow> m ! g < length ks \<and> g \<in> featureids (ks ! (m ! g))"
    and V2: "\<And>j g. j < length ks \<Longrightarrow> g \<in> featureids (ks ! j) \<Longrightarrow> g < length m \<and> m ! g = j"
    using v by (auto simp: CrossCat_valid_iff ks_def m_def)
  have okl: "ok < length ks" using V1[OF f] by (simp add: ok_def)
  obtain p mo mn r where mv:
    "move_feature_to env featureid new_kindid (init_cache st) (kind_proposer st)
        (mixture (ks ! ok)) (mixture (ks ! new_kindid)) (rng st) = (p, mo, mn, r)"
    by (metis prod_cases4)
  define ks' where "ks' = ks[ok := (ks ! ok)\<lparr>mixture := mo,
                            featureids := featureids (ks ! ok) - {featureid}\<rparr>,
                          new_kindid := (ks ! new_kindid)\<lparr>mixture := mn,
                            featureids := insert featureid (featureids (ks ! new_kindid))\<rparr>]"
  define m' where "m' = m[featureid := new_kindid]"
  define st1 where "st1 = st\<lparr>cross_cat := (cross_cat st)\<lparr>kinds := ks', featureid_to_kindid := m'\<rparr>,
                       kind_proposer := p, rng := r\<rparr>"
  have len: "length ks' = length ks" "length m' = length m" by (simp_all add: ks'_def m'_def)
  have F: "featureids (ks' ! j) =
              (if j = new_kindid then insert featureid (featureids (ks ! j))
               else if j = ok then featureids (ks ! j) - {featureid}
               else featureids (ks ! j))" if "j < length ks" for j
    using that okl k ne by (auto simp: ks'_def nth_list_update ok_def)
  have A: "m' ! g < length ks' \<and> g \<in> featureids (ks' ! (m' ! g))" if g: "g < length m" for g
  proof (cases "g = featureid")
    case True
    then show ?thesis using f k F[OF k] by (simp add: m'_def len)
  next
    case False
    then have e: "m' ! g = m ! g" by (simp add: m'_def)
    from V1[OF g] have "m ! g < length ks" "g \<in> featureids (ks ! (m ! g))" by auto
    then show ?thesis using False F[of "m ! g"] by (auto simp: e len)
  qed
  have B: "g < length m' \<and> m' ! g = j" if j: "j < length ks'" and g: "g \<in> featureids (ks' ! j)" for j g
  proof (cases "g = featureid")
    case True
    have "j = new_kindid"
    proof (rule ccontr)
      assume nj: "j \<noteq> new_kindid"
      with g True F[of j] j have "featureid \<in> featureids (ks ! j)" "j \<noteq> ok"
        by (auto simp: len split: if_splits)
      with V2[of j featureid] j show False by (simp add: len ok_def)
    qed
    then show ?thesis using True f by (simp add: m'_def)
  next
    case False
    with g F[of j] j have "g \<in> featureids (ks ! j)" by (auto simp: len split: if_splits)
    with V2[of j g] j have "g < length m" "m ! g = j" by (simp_all add: len)
    then show ?thesis using False by (simp add: m'_def)
  qed
  have v1: "CrossCat_valid (cross_cat st1)"
    unfolding CrossCat_valid_iff using A B by (simp add: st1_def len)
  have "move_feature_to_kind env featureid new_kindid st = Inr st1"
    using f k okl ne mv v1 av
    unfolding move_feature_to_kind_def Let_def
    by (simp add: ks_def[symmetric] m_def[symmetric] ok_def[symmetric] CrossCat_validate_def
          Assignments_validate_def st1_def ks'_def m'_def)
  moreover have "assignments st1 = assignments st" by (simp add: st1_def)
  moreover have "featureid_to_kindid (cross_cat st1) = m[featureid := new_kindid]"
    by (simp add: st1_def m'_def)
  moreover have "length (kinds (cross_cat st1)) = length ks" by (simp add: st1_def len)
  moreover have "\<forall>j < length ks. featureids (kinds (cross_cat st1) ! j) =
              (if j = new_kindid then insert featureid (featureids (ks ! j))
               else if j = m ! featureid then featureids (ks ! j) - {featureid}
               else featureids (ks ! j))"
    using F by (simp add: st1_def ok_def)
  ultimately show ?thesis using v1 by blast
qed

lemma add_featureless_kind_valid:
  assumes "CrossCat_valid (cross_cat st)"
  shows "CrossCat_valid (cross_cat (add_featureless_kind env st))"
proof -
  obtain kind queue r where a:
    "add_featureless_kind env st =
       st\<lparr>cross_cat := (cross_cat st)\<lparr>kinds := kinds (cross_cat st) @ [kind]\<rparr>,
          assignments := (assignments st)
             \<lparr>kind_queues := kind_queues (assignments st) @ [queue]\<rparr>,
          rng := r\<rparr>" "featureids kind = {}"
    using add_featureless_kind_shape[of env st] by (elim exE conjE) (rule that)
  show ?thesis
    using valid_append_featureless[OF assms, of "[kind]"] a by simp
qed

lemma reachable_valid:
  "reachable env st \<Longrightarrow> CrossCat_valid (cross_cat st)"
proof (induction rule: reachable.induct)
  case (constructed config tare0 cross_cat0 assignments0 proposer0 rng0 st)
  then show ?case by (elim KindKernel_new_InrE) (simp add: validate_Inr)
next
  case (ran st b st')
  from ran(2) show ?case by (elim try_run_InrE) (simp add: validate_Inr)
next
  case (destructed st st')
  from destructed(2) show ?case by (elim KindKernel_delete_InrE) (simp add: validate_Inr)
qed

lemma mark_old_spec:
  "mark_old ids ks = Inr ks' \<Longrightarrow>
   length ks' = length ks \<and> (\<forall>k \<in> set ids. k < length ks) \<and>
   (\<forall>k < length ks. ks' ! k = (if k \<in> set ids then 1 else ks ! k))"
proof (induction ids arbitrary: ks)
  case Nil
  then show ?case by simp
next
  case (Cons a ids)
  from Cons.prems have a: "a < length ks" and r: "mark_old ids (ks[a := 1]) = Inr ks'"
    by (auto split: if_splits)
  from Cons.IH[OF r] a show ?case by (auto simp: nth_list_update)
qed

lemma or_2_idem: "((x::nat) OR 2) OR 2 = x OR 2"
  by (simp add: or.assoc)

lemma mark_new_spec:
  "mark_new ids ks = Inr ks' \<Longrightarrow>
   length ks' = length ks \<and> (\<forall>k \<in> set ids. k < length ks) \<and>
   (\<forall>k < length ks. ks' ! k = (if k \<in> set ids then ks ! k OR 2 else ks ! k))"
proof (induction ids arbitrary: ks)
  case Nil
  then show ?case by simp
next
  case (Cons a ids)
  from Cons.prems have a: "a < length ks"
    and r: "mark_new ids (ks[a := ks ! a OR 2]) = Inr ks'"
    by (auto split: if_splits)
  from Cons.IH[OF r] a show ?case by (auto simp: nth_list_update or_2_idem)
qed

lemma tally_states_spec:
  "tally_states ss sc = Inr sc' \<Longrightarrow>
   length sc' = length sc \<and> (\<forall>s < length sc. sc' ! s = sc ! s + count_list ss s)"
proof (induction ss arbitrary: sc)
  case Nil
  then show ?case by simp
next
  case (Cons a ss)
  from Cons.prems have a: "a < length sc"
    and r: "tally_states ss (sc[a := sc ! a + 1]) = Inr sc'"
    by (auto split: if_splits)
  from Cons.IH[OF r] a show ?case by (auto simp: nth_list_update)
qed

lemma count_list_card: "count_list xs v = card {i. i < length xs \<and> xs ! i = v}"
proof -
  have "count_list xs v = length (filter ((=) v) xs)"
    by (rule count_list_eq_length_filter)
  also have "\<dots> = card {i. i < length xs \<and> v = xs ! i}"
    by (rule length_filter_conv_card)
  also have "{i. i < length xs \<and> v = xs ! i} = {i. i < length xs \<and> xs ! i = v}" by auto
  finally show ?thesis .
qed

lemma birth_death_tally:
  assumes mo: "mark_old old (replicate n 0) = Inr ks1"
    and mn: "mark_new new ks1 = Inr ks"
    and ts: "tally_states ks [0, 0, 0, 0] = Inr sc"
  shows "sc ! 1 = card (set old - set new) \<and> sc ! 2 = card (set new - set old)"
proof -
  from mark_old_spec[OF mo] have 1: "length ks1 = n" "\<forall>k \<in> set old. k < n"
    "\<forall>k < n. ks1 ! k = (if k \<in> set old then 1 else 0)" by auto
  from mark_new_spec[OF mn] 1 have 2: "length ks = n" "\<forall>k \<in> set new. k < n"
    "\<forall>k < n. ks ! k = (if k \<in> set new then ks1 ! k OR 2 else ks1 ! k)" by auto
  have v: "ks ! k = (if k \<in> set old then (if k \<in> set new then 3 else 1)
                     else (if k \<in> set new then 2 else 0))" if "k < n" for k
    using that 1(3) 2(3) by simp
  from tally_states_spec[OF ts] have 3: "sc ! 1 = count_list ks 1" "sc ! 2 = count_list ks 2"
    by simp_all
  have "{i. i < length ks \<and> ks ! i = 1} = set old - set new"
    using v 1(2) 2(1) by (auto split: if_splits)
  moreover have "{i. i < length ks \<and> ks ! i = 2} = set new - set old"
    using v 2(1,2) by (auto split: if_splits)
  ultimately show ?thesis using 3 by (simp add: count_list_card)
qed

lemma repoint_length: "repoint fs k m = Inr m' \<Longrightarrow> length m' = length m"
  by (induction fs arbitrary: m) (auto split: if_splits)

lemma remove_featureless_kind_occupied:
  assumes "remove_featureless_kind kindid st = Inr st'"
  shows "filter_mset (\<lambda>k. featureids k \<noteq> {}) (mset (kinds (cross_cat st'))) =
           filter_mset (\<lambda>k. featureids k \<noteq> {}) (mset (kinds (cross_cat st))) \<and>
         length (featureid_to_kindid (cross_cat st')) = length (featureid_to_kindid (cross_cat st))"
proof -
  from remove_featureless_kind_kinds[OF assms] have
    k: "kinds (cross_cat st') = packed_remove kindid (kinds (cross_cat st))"
    and l: "kindid < length (kinds (cross_cat st))"
    and e: "featureids (kinds (cross_cat st) ! kindid) = {}" by auto
  have 1: "filter_mset (\<lambda>k. featureids k \<noteq> {}) (mset (kinds (cross_cat st'))) =
           filter_mset (\<lambda>k. featureids k \<noteq> {}) (mset (kinds (cross_cat st)))"
    using l e by (simp add: k mset_packed_remove filter_diff_mset)
  have 2: "length (featureid_to_kindid (cross_cat st')) = length (featureid_to_kindid (cross_cat st))"
    using assms
    by (auto simp: remove_featureless_kind_def Let_def dest: repoint_length
          split: if_splits sum.splits)
  from 1 2 show ?thesis by simp
qed

lemma remove_empty_from_occupied:
  "remove_empty_from i st = Inr st' \<Longrightarrow>
   filter_mset (\<lambda>k. featureids k \<noteq> {}) (mset (kinds (cross_cat st'))) =
     filter_mset (\<lambda>k. featureids k \<noteq> {}) (mset (kinds (cross_cat st))) \<and>
   length (featureid_to_kindid (cross_cat st')) = length (featureid_to_kindid (cross_cat st))"
proof (induction i st rule: remove_empty_from.induct)
  case (1 i st)
  show ?case
  proof (cases "i < 0")
    case True
    with 1(3) show ?thesis by (simp add: remove_empty_from.simps[of i])
  next
    case nn: False
    show ?thesis
    proof (cases "featureids (kinds (cross_cat st) ! nat i) = {}")
      case True
      with 1(3) nn obtain st1 where r: "remove_featureless_kind (nat i) st = Inr st1"
        and rest: "remove_empty_from (i - 1) st1 = Inr st'"
        and inr: "nat i < length (kinds (cross_cat st))"
        by (subst (asm) remove_empty_from.simps) (auto split: if_splits sum.splits)
      from 1(1)[OF nn _ True r rest] inr remove_featureless_kind_occupied[OF r]
      show ?thesis by simp
    next
      case False
      with 1(3) nn have rest: "remove_empty_from (i - 1) st = Inr st'"
        and inr: "nat i < length (kinds (cross_cat st))"
        by (subst (asm) remove_empty_from.simps, auto split: if_splits)+
      from 1(2)[OF nn _ False rest] inr show ?thesis by simp
    qed
  qed
qed

lemma init_featureless_kinds_occupied:
  assumes "init_featureless_kinds env n st = Inr st'"
  shows "filter_mset (\<lambda>k. featureids k \<noteq> {}) (mset (kinds (cross_cat st'))) =
           filter_mset (\<lambda>k. featureids k \<noteq> {}) (mset (kinds (cross_cat st))) \<and>
         length (featureid_to_kindid (cross_cat st')) = length (featureid_to_kindid (cross_cat st))"
proof -
  from assms obtain st1 where p1:
    "remove_empty_from (int (length (kinds (cross_cat st))) - 1) st = Inr st1"
    and st': "st' = add_kinds env n st1"
    by (auto simp: init_featureless_kinds_def CrossCat_validate_def Assignments_validate_def
          split: sum.splits if_splits)
  obtain nk nq r where p2:
    "add_kinds env n st1 =
       st1\<lparr>cross_cat := (cross_cat st1)\<lparr>kinds := kinds (cross_cat st1) @ nk\<rparr>,
          assignments := (assignments st1)
             \<lparr>kind_queues := kind_queues (assignments st1) @ nq\<rparr>,
          rng := r\<rparr>"
     "\<forall>k \<in> set nk. featureids k = {}"
    using add_kinds_shape[of env n st1] by (elim exE conjE) (rule that)
  have "filter_mset (\<lambda>k. featureids k \<noteq> {}) (mset nk) = {#}" using p2(2) by simp
  with remove_empty_from_occupied[OF p1] show ?thesis
    by (simp add: st' p2(1))
qed

lemma apply_moves_calls:
  "apply_moves env old new fs c st = Inr (c', st') \<Longrightarrow>
   move_each env (map (\<lambda>f. (f, new ! f)) (filter (\<lambda>f. new ! f \<noteq> old ! f) fs)) st = Inr st'"
proof (induction fs arbitrary: c st)
  case Nil
  then show ?case by simp
next
  case (Cons f fs)
  show ?case
  proof (cases "new ! f \<noteq> old ! f")
    case True
    with Cons.prems obtain st1 where m: "move_feature_to_kind env f (new ! f) st = Inr st1"
      and rest: "apply_moves env old new fs (c + 1) st1 = Inr (c', st')"
      by (auto simp: Let_def split: if_splits sum.splits)
    from Cons.IH[OF rest] m True show ?thesis by simp
  next
    case False
    with Cons.prems have rest: "apply_moves env old new fs c st = Inr (c', st')"
      by (auto simp: Let_def split: if_splits)
    from Cons.IH[OF rest] False show ?thesis by simp
  qed
qed

lemma apply_moves_noop:
  "\<forall>f \<in> set fs. f < length new \<and> new ! f = old ! f \<Longrightarrow>
   apply_moves env old new fs c st = Inr (c, st)"
  by (induction fs arbitrary: c st) (auto simp: Let_def)

lemma length_filter_upt_card:
  "length (filter P [0..<n]) = card {f. f < n \<and> P f}"
proof -
  have "{i. i < length [0..<n] \<and> P ([0..<n] ! i)} = {f. f < n \<and> P f}" by auto
  then show ?thesis by (simp add: length_filter_conv_card)
qed

lemma try_run_InrE':
  assumes "try_run env st = Inr (b, st')"
  obtains changed st2 kind_states1 kind_states state_counts st5
  where "validate st = Inr st"
    and "apply_moves env (featureid_to_kindid (cross_cat st)) (proposed_kindids env st)
           [0..<length (featureid_to_kindid (cross_cat st))] 0 (after_proposal env st) =
         Inr (changed, st2)"
    and "mark_old (featureid_to_kindid (cross_cat st))
           (replicate (length (kinds (cross_cat st2))) 0) = Inr kind_states1"
    and "mark_new (proposed_kindids env st) kind_states1 = Inr kind_states"
    and "tally_states kind_states [0, 0, 0, 0] = Inr state_counts"
    and "init_featureless_kinds env (empty_kind_count st2)
           (st2\<lparr>total_count := length (featureid_to_kindid (cross_cat st)),
                change_count := changed,
                death_count := state_counts ! 1, birth_count := state_counts ! 2\<rparr>) = Inr st5"
    and "st' = st5\<lparr>kind_proposer :=
                     fst (mixture_init_unobserved env (cross_cat st5) (kind_proposer st5) (rng st5)),
                   rng := snd (mixture_init_unobserved env (cross_cat st5) (kind_proposer st5) (rng st5))\<rparr>"
    and "validate st' = Inr st'"
    and "b = (changed > 0)"
proof -
  from assms show ?thesis
  proof (elim try_run_InrE)
    fix new_kindids t_tare t_score t_sample proposer rng1 changed st2 kind_states1
      kind_states state_counts st5
    assume inf: "infer_assignments env (tare st) (cross_cat st) (featureid_to_kindid (cross_cat st))
           (iterations st) (score_parallel st) (kind_proposer st) (rng st) =
         (new_kindids, (t_tare, t_score, t_sample), proposer, rng1)"
    then have p: "proposed_kindids env st = new_kindids"
      "after_proposal env st = st\<lparr>kind_proposer := proposer, rng := rng1,
               tare_time := t_tare, score_time := t_score, sample_time := t_sample\<rparr>"
      by (simp_all add: proposed_kindids_def after_proposal_def proposal_def)
    assume "validate st = Inr st"
      "apply_moves env (featureid_to_kindid (cross_cat st)) new_kindids
           [0..<length (featureid_to_kindid (cross_cat st))] 0
           (st\<lparr>kind_proposer := proposer, rng := rng1,
               tare_time := t_tare, score_time := t_score, sample_time := t_sample\<rparr>) =
         Inr (changed, st2)"
      "mark_old (featureid_to_kindid (cross_cat st))
           (replicate (length (kinds (cross_cat st2))) 0) = Inr kind_states1"
      "mark_new new_kindids kind_states1 = Inr kind_states"
      "tally_states kind_states [0, 0, 0, 0] = Inr state_counts"
      "init_featureless_kinds env (empty_kind_count st2)
           (st2\<lparr>total_count := length (featureid_to_kindid (cross_cat st)),
                change_count := changed,
                death_count := state_counts ! 1, birth_count := state_counts ! 2\<rparr>) = Inr st5"
      "st' = st5\<lparr>kind_proposer :=
                     fst (mixture_init_unobserved env (cross_cat st5) (kind_proposer st5) (rng st5)),
                   rng := snd (mixture_init_unobserved env (cross_cat st5) (kind_proposer st5) (rng st5))\<rparr>"
      "validate st' = Inr st'" "b = (changed > 0)"
    then show ?thesis
      using that unfolding p[symmetric] by blast
  qed
qed

lemma repoint_Inl: "repoint fs k m = Inl e \<Longrightarrow> e = OutOfRange"
  by (induction fs arbitrary: m) (auto split: if_splits)

section \<open>Lemmas about record streams\<close>

lemma le32_combine:
  fixes w :: "32 word"
  shows "ucast (ucast w :: 8 word) OR push_bit 8 (ucast (ucast (drop_bit 8 w) :: 8 word)) OR
         push_bit 16 (ucast (ucast (drop_bit 16 w) :: 8 word)) OR
         push_bit 24 (ucast (ucast (drop_bit 24 w) :: 8 word)) = w" (is "?l = w")
proof (rule bit_word_eqI)
  fix n assume "n < LENGTH(32)"
  then show "bit ?l n = bit w n"
    by (cases "n < 8"; cases "n < 16"; cases "n < 24") (auto simp: bit_simps)
qed

lemma Read_Write_LittleEndian32:
  "ReadLittleEndian32 (WriteLittleEndian32 w @ rest) = Some (w, rest)"
  by (simp add: WriteLittleEndian32_def le32_combine)

lemma ReadLittleEndian32_None_iff:
  "ReadLittleEndian32 bytes = None \<longleftrightarrow> length bytes < 4"
  by (cases bytes rule: ReadLittleEndian32.cases) simp_all

declare read_all.simps [simp del]

lemma unat_word_of_nat_size:
  "n < 2 ^ 31 \<Longrightarrow> unat (word_of_nat n :: 32 word) = n"
  by (simp add: unat_of_nat)

lemma write_stream_written:
  "write_stream lib message out = Inr out' \<Longrightarrow>
   out' = out\<lparr>written := written out @ record_of lib message\<rparr>"
  by (auto simp: write_stream_def record_of_def Let_def split: if_splits)

lemma write_all_ok:
  "\<forall>m \<in> set messages. IsInitialized lib m \<Longrightarrow>
   write_all lib messages out =
     Inr (out\<lparr>written := written out @ concat (map (record_of lib) messages)\<rparr>)"
proof (induction messages arbitrary: out)
  case Nil
  then show ?case by simp
next
  case (Cons m messages)
  have "write_stream lib m out = Inr (out\<lparr>written := written out @ record_of lib m\<rparr>)"
    using Cons.prems by (simp add: write_stream_def record_of_def Let_def)
  then show ?case
    using Cons.IH[of "out\<lparr>written := written out @ record_of lib m\<rparr>"] Cons.prems
    by simp
qed

lemma try_read_stream_record:
  assumes "well_formed lib m" and "stream f = record_of lib m @ rest"
  shows "try_read_stream lib f = Inr (Some m, f\<lparr>stream := rest, position := position f + 1\<rparr>)"
proof -
  let ?s = "SerializeWithCachedSizes lib m"
  have n: "unat (word_of_nat (length ?s) :: 32 word) = length ?s"
    using assms(1) by (simp add: well_formed_def unat_word_of_nat_size)
  have "ReadLittleEndian32 (stream f) = Some (word_of_nat (length ?s), ?s @ rest)"
    by (simp add: assms(2) record_of_def Read_Write_LittleEndian32)
  then show ?thesis
    using assms(1) n by (simp add: try_read_stream_def well_formed_def)
qed

lemma read_all_records:
  "\<forall>m \<in> set messages. well_formed lib m \<Longrightarrow>
   stream f = concat (map (record_of lib) messages) \<Longrightarrow>
   read_all lib f acc = Inr (acc @ messages)"
proof (induction messages arbitrary: f acc)
  case Nil
  then have "try_read_stream lib f = Inr (None, f)"
    by (simp add: try_read_stream_def)
  then show ?case by (subst read_all.simps) simp
next
  case (Cons m messages)
  let ?rest = "concat (map (record_of lib) messages)"
  have "try_read_stream lib f = Inr (Some m, f\<lparr>stream := ?rest, position := position f + 1\<rparr>)"
    using Cons.prems by (intro try_read_stream_record) simp_all
  moreover have "read_all lib (f\<lparr>stream := ?rest, position := position f + 1\<rparr>) (acc @ [m]) =
                   Inr ((acc @ [m]) @ messages)"
    using Cons.prems by (intro Cons.IH) simp_all
  ultimately show ?case by (subst read_all.simps) simp
qed

lemma try_read_stream_false_iff:
  "(\<exists>f'. try_read_stream lib f = Inr (None, f')) \<longleftrightarrow> length (stream f) < 4"
  by (auto simp: try_read_stream_def ReadLittleEndian32_None_iff[symmetric]
        split: option.splits)

lemma dump_then_load:
  assumes name: "filename \<noteq> []" "filename \<noteq> ''-''" "filename \<noteq> ''-.gz''"
    and wr: "writable filename"
    and wf: "\<forall>m \<in> set messages. well_formed lib m"
    and gz: "endswith filename ''.gz'' \<longrightarrow> (\<forall>bytes. gunzip lib (gzip lib bytes) = bytes)"
  shows "\<exists>fs'. protobuf_stream_dump lib writable messages filename fs = Inr fs' \<and>
               protobuf_stream_load lib fs' pending filename = Inr messages"
proof -
  let ?bytes = "concat (map (record_of lib) messages)"
  let ?out = "\<lparr>out_filename = filename, out_is_file = True, written = []\<rparr>"
  have o: "OutFile_open writable filename = Inr ?out"
    using name wr by (simp add: OutFile_open_def)
  have init: "\<forall>m \<in> set messages. IsInitialized lib m" using wf by (simp add: well_formed_def)
  have w: "write_all lib messages ?out = Inr (?out\<lparr>written := ?bytes\<rparr>)"
    using write_all_ok[OF init, of ?out] by simp
  define fs' where "fs' = OutFile_close lib fs (?out\<lparr>written := ?bytes\<rparr>)"
  have d: "protobuf_stream_dump lib writable messages filename fs = Inr fs'"
    by (simp add: protobuf_stream_dump_def o w fs'_def)
  have content: "fs' filename = Some (if endswith filename ''.gz'' then gzip lib ?bytes else ?bytes)"
    by (simp add: fs'_def OutFile_close_def)
  define f where "f = \<lparr>in_filename = filename, in_is_file = True, stream = ?bytes, position = 0\<rparr>"
  have "InFile_named lib fs' pending filename = Inr f"
    using name gz by (simp add: InFile_named_def InFile_open_def Let_def content f_def)
  moreover have "read_all lib f [] = Inr ([] @ messages)"
    by (rule read_all_records[OF wf]) (simp add: f_def)
  ultimately have "protobuf_stream_load lib fs' pending filename = Inr messages"
    by (simp add: protobuf_stream_load_def)
  with d show ?thesis by blast
qed





section \<open>The bijection between the feature map and the owned sets\<close>

text \<open>
  C1. The bijection between the feature map and the kinds' owned sets: every feature
  id is owned by the kind at its mapped index, and every feature id a kind owns maps
  back to that kind's index. It holds in every reachable state (after construction,
  after every \<open>try_run\<close>, after destruction), and each mutating operation started in a
  state with the bijection (and with its arguments in range) returns a state with the
  bijection.
\<close>

theorem bijection_invariant:
  "(CrossCat_valid cc \<longleftrightarrow>
      (\<forall>f < length (featureid_to_kindid cc).
         featureid_to_kindid cc ! f < length (kinds cc) \<and>
         f \<in> featureids (kinds cc ! (featureid_to_kindid cc ! f))) \<and>
      (\<forall>k < length (kinds cc). \<forall>f \<in> featureids (kinds cc ! k).
         f < length (featureid_to_kindid cc) \<and> featureid_to_kindid cc ! f = k)) \<and>
   (reachable env st \<longrightarrow> CrossCat_valid (cross_cat st)) \<and>
   (CrossCat_valid (cross_cat st) \<and> Assignments_valid (assignments st) \<and>
    featureid < length (featureid_to_kindid (cross_cat st)) \<and>
    new_kindid < length (kinds (cross_cat st)) \<and>
    new_kindid \<noteq> featureid_to_kindid (cross_cat st) ! featureid \<longrightarrow>
      (\<exists>st'. move_feature_to_kind env featureid new_kindid st = Inr st' \<and>
             CrossCat_valid (cross_cat st'))) \<and>
   (CrossCat_valid (cross_cat st) \<and> aligned st \<and> kindid < length (kinds (cross_cat st)) \<and>
    featureids (kinds (cross_cat st) ! kindid) = {} \<longrightarrow>
      (\<exists>st'. remove_featureless_kind kindid st = Inr st' \<and> CrossCat_valid (cross_cat st'))) \<and>
   (CrossCat_valid (cross_cat st) \<longrightarrow>
      CrossCat_valid (cross_cat (add_featureless_kind env st))) \<and>
   (CrossCat_valid (cross_cat st) \<and> aligned st \<and> Assignments_valid (assignments st) \<and>
    samples_every_row env \<longrightarrow>
      (\<exists>st'. init_featureless_kinds env target_count st = Inr st' \<and>
             CrossCat_valid (cross_cat st')))"
proof (intro conjI impI)
  show "CrossCat_valid cc \<longleftrightarrow>
      (\<forall>f < length (featureid_to_kindid cc).
         featureid_to_kindid cc ! f < length (kinds cc) \<and>
         f \<in> featureids (kinds cc ! (featureid_to_kindid cc ! f))) \<and>
      (\<forall>k < length (kinds cc). \<forall>f \<in> featureids (kinds cc ! k).
         f < length (featureid_to_kindid cc) \<and> featureid_to_kindid cc ! f = k)"
    by (rule CrossCat_valid_iff)
next
  assume "reachable env st"
  then show "CrossCat_valid (cross_cat st)" by (rule reachable_valid)
next
  assume "CrossCat_valid (cross_cat st) \<and> Assignments_valid (assignments st) \<and>
    featureid < length (featureid_to_kindid (cross_cat st)) \<and>
    new_kindid < length (kinds (cross_cat st)) \<and>
    new_kindid \<noteq> featureid_to_kindid (cross_cat st) ! featureid"
  then have h: "CrossCat_valid (cross_cat st)" "Assignments_valid (assignments st)"
    "featureid < length (featureid_to_kindid (cross_cat st))"
    "new_kindid < length (kinds (cross_cat st))"
    "new_kindid \<noteq> featureid_to_kindid (cross_cat st) ! featureid"
    by simp_all
  from move_feature_to_kind_ok[OF h, of env]
  show "\<exists>st'. move_feature_to_kind env featureid new_kindid st = Inr st' \<and>
             CrossCat_valid (cross_cat st')"
    by (elim exE conjE) (intro exI conjI)
next
  assume "CrossCat_valid (cross_cat st) \<and> aligned st \<and> kindid < length (kinds (cross_cat st)) \<and>
    featureids (kinds (cross_cat st) ! kindid) = {}"
  then have h: "CrossCat_valid (cross_cat st)" "aligned st"
    "kindid < length (kinds (cross_cat st))" "featureids (kinds (cross_cat st) ! kindid) = {}"
    by simp_all
  from remove_featureless_kind_valid[OF h] obtain m' where
    r: "remove_featureless_kind kindid st =
           Inr (st\<lparr>cross_cat := (cross_cat st)\<lparr>kinds := packed_remove kindid (kinds (cross_cat st)),
                                                featureid_to_kindid := m'\<rparr>,
                   assignments := (assignments st)
                     \<lparr>kind_queues := packed_remove kindid (kind_queues (assignments st))\<rparr>\<rparr>)"
    and v: "CrossCat_valid ((cross_cat st)\<lparr>kinds := packed_remove kindid (kinds (cross_cat st)),
                                        featureid_to_kindid := m'\<rparr>)"
    by (elim exE conjE) (rule that)
  show "\<exists>st'. remove_featureless_kind kindid st = Inr st' \<and> CrossCat_valid (cross_cat st')"
    unfolding r using v by simp
next
  assume "CrossCat_valid (cross_cat st)"
  then show "CrossCat_valid (cross_cat (add_featureless_kind env st))"
    by (rule add_featureless_kind_valid)
next
  assume "CrossCat_valid (cross_cat st) \<and> aligned st \<and> Assignments_valid (assignments st) \<and>
    samples_every_row env"
  then have h: "CrossCat_valid (cross_cat st)" "aligned st" "Assignments_valid (assignments st)"
    "samples_every_row env" by simp_all
  from init_featureless_kinds_ok[OF h, of target_count] obtain st' where
    "init_featureless_kinds env target_count st = Inr st'"
    by (elim exE conjE) (rule that)
  then show "\<exists>st'. init_featureless_kinds env target_count st = Inr st' \<and>
             CrossCat_valid (cross_cat st')"
    using init_featureless_kinds_valid by blast
qed

theorem bijection_invariant_witness:
  "reachable env_ex st_ex_end \<and> CrossCat_valid (cross_cat st_ex_end) \<and>
   CrossCat_valid (cross_cat st_ex_init) \<and> Assignments_valid (assignments st_ex_init) \<and>
   (\<exists>st'. move_feature_to_kind env_ex 1 2 st_ex_init = Inr st' \<and> CrossCat_valid (cross_cat st')) \<and>
   CrossCat_valid (cross_cat st_ex) \<and> aligned st_ex \<and>
   (\<exists>st'. remove_featureless_kind 0 st_ex = Inr st' \<and> CrossCat_valid (cross_cat st')) \<and>
   CrossCat_valid (cross_cat (add_featureless_kind env_ex st_ex)) \<and>
   Assignments_valid (assignments st_ex) \<and> samples_every_row env_ex \<and>
   (\<exists>st'. init_featureless_kinds env_ex 2 st_ex = Inr st' \<and> CrossCat_valid (cross_cat st'))"
proof -
  have n: "KindKernel_new env_ex cfg_ex () (cross_cat st_ex) (assignments st_ex) 0 0 = Inr st_ex_init"
    by code_simp
  have t: "try_run env_ex st_ex_init = Inr (True, st_ex_run)" by code_simp
  have d: "KindKernel_delete env_ex st_ex_run = Inr st_ex_end" by code_simp
  have r: "reachable env_ex st_ex_end"
    by (rule reachable.destructed[OF reachable.ran[OF reachable.constructed[OF n] t] d])
  have v: "CrossCat_valid (cross_cat st_ex)" "aligned st_ex" "Assignments_valid (assignments st_ex)"
    "CrossCat_valid (cross_cat st_ex_init)" "Assignments_valid (assignments st_ex_init)"
    by code_simp+
  have s: "samples_every_row env_ex" by (simp add: samples_every_row_def env_ex_def)
  have i: "(1::nat) < length (featureid_to_kindid (cross_cat st_ex_init))"
    "(2::nat) < length (kinds (cross_cat st_ex_init))"
    "(2::nat) \<noteq> featureid_to_kindid (cross_cat st_ex_init) ! 1"
    "(0::nat) < length (kinds (cross_cat st_ex))"
    "featureids (kinds (cross_cat st_ex) ! 0) = {}"
    by (simp_all add: st_ex_init_def st_ex_def)
  note a = bijection_invariant[of "cross_cat st_ex" env_ex st_ex_end 1 2 0 2]
  note b = bijection_invariant[of "cross_cat st_ex" env_ex st_ex_init 1 2 0 2]
  note c = bijection_invariant[of "cross_cat st_ex" env_ex st_ex 1 2 0 2]
  have 1: "CrossCat_valid (cross_cat st_ex_end)" using a r by blast
  have 2: "\<exists>st'. move_feature_to_kind env_ex 1 2 st_ex_init = Inr st' \<and> CrossCat_valid (cross_cat st')"
    using b v i by blast
  have 3: "\<exists>st'. remove_featureless_kind 0 st_ex = Inr st' \<and> CrossCat_valid (cross_cat st')"
    using c v i by blast
  have 4: "CrossCat_valid (cross_cat (add_featureless_kind env_ex st_ex))"
    using c v by blast
  have 5: "\<exists>st'. init_featureless_kinds env_ex 2 st_ex = Inr st' \<and> CrossCat_valid (cross_cat st')"
    using c v s by blast
  from r v s 1 2 3 4 5 show ?thesis by simp
qed

section \<open>The reservoir of empty kinds\<close>

text \<open>
  C2. Immediately after \<open>init_featureless_kinds(target_count)\<close> returns, exactly
  \<open>target_count\<close> kinds own no feature: the descending scan of phase 1 leaves no
  empty kind (a kind relocated by the swap-removal is not skipped), and phase 2 appends
  exactly \<open>target_count\<close> empty kinds. Hence the count is \<open>empty_kind_count\<close> after
  construction and after every \<open>try_run\<close>, and zero after destruction. On a valid,
  index-aligned state the call does return.
\<close>

theorem reservoir_exact_after_init_featureless_kinds:
  "(init_featureless_kinds env target_count st = Inr st' \<longrightarrow>
      count_featureless (cross_cat st') = target_count) \<and>
   (remove_empty_from (int (length (kinds (cross_cat st))) - 1) st = Inr st1 \<longrightarrow>
      count_featureless (cross_cat st1) = 0) \<and>
   count_featureless (cross_cat (add_kinds env target_count st1)) =
      count_featureless (cross_cat st1) + target_count \<and>
   length (kinds (cross_cat (add_kinds env target_count st1))) =
      length (kinds (cross_cat st1)) + target_count \<and>
   (CrossCat_valid (cross_cat st) \<and> aligned st \<and> Assignments_valid (assignments st) \<and>
    samples_every_row env \<longrightarrow>
      (\<exists>st2. init_featureless_kinds env target_count st = Inr st2)) \<and>
   (KindKernel_new env config tare0 cross_cat0 assignments0 proposer0 rng0 = Inr st' \<longrightarrow>
      count_featureless (cross_cat st') = kind_empty_kind_count config) \<and>
   (try_run env st = Inr (b, st') \<longrightarrow>
      count_featureless (cross_cat st') = empty_kind_count st) \<and>
   (KindKernel_delete env st = Inr st' \<longrightarrow> count_featureless (cross_cat st') = 0)"
proof (intro conjI impI)
  assume "init_featureless_kinds env target_count st = Inr st'"
  then show "count_featureless (cross_cat st') = target_count"
    by (simp add: count_featureless_def init_featureless_kinds_count)
next
  assume "remove_empty_from (int (length (kinds (cross_cat st))) - 1) st = Inr st1"
  then show "count_featureless (cross_cat st1) = 0" by (rule remove_empty_from_count)
next
  show "count_featureless (cross_cat (add_kinds env target_count st1)) =
      count_featureless (cross_cat st1) + target_count"
    by (simp add: add_kinds_count)
next
  show "length (kinds (cross_cat (add_kinds env target_count st1))) =
      length (kinds (cross_cat st1)) + target_count"
    by (simp add: add_kinds_count)
next
  assume "CrossCat_valid (cross_cat st) \<and> aligned st \<and> Assignments_valid (assignments st) \<and>
    samples_every_row env"
  then have "CrossCat_valid (cross_cat st)" "aligned st" "Assignments_valid (assignments st)"
    "samples_every_row env" by simp_all
  from init_featureless_kinds_ok[OF this, of target_count]
  show "\<exists>st2. init_featureless_kinds env target_count st = Inr st2" by (elim exE conjE) (rule exI)
next
  assume "KindKernel_new env config tare0 cross_cat0 assignments0 proposer0 rng0 = Inr st'"
  then show "count_featureless (cross_cat st') = kind_empty_kind_count config"
    by (elim KindKernel_new_InrE)
       (simp add: count_featureless_def init_featureless_kinds_count)
next
  assume "try_run env st = Inr (b, st')"
  then show "count_featureless (cross_cat st') = empty_kind_count st"
  proof (elim try_run_InrE)
    fix new_kindids t_tare t_score t_sample proposer rng1 changed st2 kind_states1
      kind_states state_counts st5
    assume am: "apply_moves env (featureid_to_kindid (cross_cat st)) new_kindids
           [0..<length (featureid_to_kindid (cross_cat st))] 0
           (st\<lparr>kind_proposer := proposer, rng := rng1,
               tare_time := t_tare, score_time := t_score, sample_time := t_sample\<rparr>) =
         Inr (changed, st2)"
      and ini: "init_featureless_kinds env (empty_kind_count st2)
           (st2\<lparr>total_count := length (featureid_to_kindid (cross_cat st)),
                change_count := changed,
                death_count := state_counts ! 1, birth_count := state_counts ! 2\<rparr>) = Inr st5"
      and st': "st' = st5\<lparr>kind_proposer :=
                     fst (mixture_init_unobserved env (cross_cat st5) (kind_proposer st5) (rng st5)),
                   rng := snd (mixture_init_unobserved env (cross_cat st5) (kind_proposer st5) (rng st5))\<rparr>"
    have "empty_kind_count st2 = empty_kind_count st"
      using apply_moves_untouched[OF am] by (simp add: untouched_def)
    with init_featureless_kinds_count[OF ini] st' show ?thesis
      by (simp add: count_featureless_def)
  qed
next
  assume "KindKernel_delete env st = Inr st'"
  then show "count_featureless (cross_cat st') = 0"
    by (elim KindKernel_delete_InrE)
       (simp add: count_featureless_def init_featureless_kinds_count)
qed

theorem reservoir_exact_witness:
  "init_featureless_kinds env_ex 2 st_ex = Inr st_ex_init \<and>
   count_featureless (cross_cat st_ex_init) = 2 \<and>
   CrossCat_valid (cross_cat st_ex) \<and> aligned st_ex \<and> Assignments_valid (assignments st_ex) \<and>
   samples_every_row env_ex \<and>
   KindKernel_new env_ex cfg_ex () (cross_cat st_ex) (assignments st_ex) 0 0 = Inr st_ex_init \<and>
   try_run env_ex st_ex_init = Inr (True, st_ex_run) \<and>
   count_featureless (cross_cat st_ex_run) = empty_kind_count st_ex_init \<and>
   KindKernel_delete env_ex st_ex_run = Inr st_ex_end \<and>
   count_featureless (cross_cat st_ex_end) = 0"
proof -
  have i: "init_featureless_kinds env_ex 2 st_ex = Inr st_ex_init" by code_simp
  have n: "KindKernel_new env_ex cfg_ex () (cross_cat st_ex) (assignments st_ex) 0 0 = Inr st_ex_init"
    by code_simp
  have t: "try_run env_ex st_ex_init = Inr (True, st_ex_run)" by code_simp
  have d: "KindKernel_delete env_ex st_ex_run = Inr st_ex_end" by code_simp
  have v: "CrossCat_valid (cross_cat st_ex)" "aligned st_ex" "Assignments_valid (assignments st_ex)"
    by code_simp+
  have s: "samples_every_row env_ex" by (simp add: samples_every_row_def env_ex_def)
  from reservoir_exact_after_init_featureless_kinds
         [of env_ex 2 st_ex st_ex_init st_ex cfg_ex "()" "cross_cat st_ex" "assignments st_ex" 0 0 True]
       i
  have 1: "count_featureless (cross_cat st_ex_init) = 2" by blast
  from reservoir_exact_after_init_featureless_kinds
         [of env_ex 2 st_ex_init st_ex_run st_ex cfg_ex "()" "cross_cat st_ex" "assignments st_ex" 0 0 True]
       t
  have 2: "count_featureless (cross_cat st_ex_run) = empty_kind_count st_ex_init" by blast
  from reservoir_exact_after_init_featureless_kinds
         [of env_ex 2 st_ex_run st_ex_end st_ex cfg_ex "()" "cross_cat st_ex" "assignments st_ex" 0 0 True]
       d
  have 3: "count_featureless (cross_cat st_ex_end) = 0" by blast
  from i n t d v s 1 2 3 show ?thesis by simp
qed

section \<open>Transitions\<close>

text \<open>
  C3. If the proposer returns the map it was given, \<open>try_run\<close> returns false with
  \<open>change_count_\<close>, \<open>birth_count_\<close> and \<open>death_count_\<close> all zero; no call of
  \<open>move_feature_to_kind\<close> is made (the apply loop hands back its input state), so the
  partition that \<open>try_run\<close> returns is the one that reservoir maintenance alone makes
  of the partition at entry: the occupied kinds are the same, up to their indices.
\<close>

theorem no_op_transition:
  "try_run env st = Inr (b, st') \<and>
   proposed_kindids env st = featureid_to_kindid (cross_cat st) \<longrightarrow>
     \<not> b \<and> change_count st' = 0 \<and> birth_count st' = 0 \<and> death_count st' = 0 \<and>
     move_calls env st = [] \<and>
     apply_moves env (featureid_to_kindid (cross_cat st)) (proposed_kindids env st)
        [0..<length (featureid_to_kindid (cross_cat st))] 0 (after_proposal env st) =
       Inr (0, after_proposal env st) \<and>
     cross_cat (after_proposal env st) = cross_cat st \<and>
     assignments (after_proposal env st) = assignments st \<and>
     (\<exists>st5. init_featureless_kinds env (empty_kind_count st)
               ((after_proposal env st)
                  \<lparr>total_count := length (featureid_to_kindid (cross_cat st)),
                   change_count := 0, death_count := 0, birth_count := 0\<rparr>) = Inr st5 \<and>
            cross_cat st' = cross_cat st5 \<and> assignments st' = assignments st5) \<and>
     filter_mset (\<lambda>k. featureids k \<noteq> {}) (mset (kinds (cross_cat st'))) =
       filter_mset (\<lambda>k. featureids k \<noteq> {}) (mset (kinds (cross_cat st))) \<and>
     length (featureid_to_kindid (cross_cat st')) = length (featureid_to_kindid (cross_cat st))"
proof (intro impI, elim conjE)
  let ?old = "featureid_to_kindid (cross_cat st)"
  assume run: "try_run env st = Inr (b, st')" and same: "proposed_kindids env st = ?old"
  have noop: "apply_moves env ?old (proposed_kindids env st) [0..<length ?old] 0
                (after_proposal env st) = Inr (0, after_proposal env st)"
    unfolding same by (rule apply_moves_noop) simp
  have cc: "cross_cat (after_proposal env st) = cross_cat st"
    "assignments (after_proposal env st) = assignments st"
    "empty_kind_count (after_proposal env st) = empty_kind_count st"
    by (simp_all add: after_proposal_def case_prod_beta)
  have calls: "move_calls env st = []"
    by (simp add: move_calls_def same)
  from run show "\<not> b \<and> change_count st' = 0 \<and> birth_count st' = 0 \<and> death_count st' = 0 \<and>
     move_calls env st = [] \<and>
     apply_moves env ?old (proposed_kindids env st) [0..<length ?old] 0 (after_proposal env st) =
       Inr (0, after_proposal env st) \<and>
     cross_cat (after_proposal env st) = cross_cat st \<and>
     assignments (after_proposal env st) = assignments st \<and>
     (\<exists>st5. init_featureless_kinds env (empty_kind_count st)
               ((after_proposal env st)
                  \<lparr>total_count := length ?old,
                   change_count := 0, death_count := 0, birth_count := 0\<rparr>) = Inr st5 \<and>
            cross_cat st' = cross_cat st5 \<and> assignments st' = assignments st5) \<and>
     filter_mset (\<lambda>k. featureids k \<noteq> {}) (mset (kinds (cross_cat st'))) =
       filter_mset (\<lambda>k. featureids k \<noteq> {}) (mset (kinds (cross_cat st))) \<and>
     length (featureid_to_kindid (cross_cat st')) = length ?old"
  proof (elim try_run_InrE')
    fix changed st2 kind_states1 kind_states state_counts st5
    assume am: "apply_moves env ?old (proposed_kindids env st) [0..<length ?old] 0
                  (after_proposal env st) = Inr (changed, st2)"
      and mo: "mark_old ?old (replicate (length (kinds (cross_cat st2))) 0) = Inr kind_states1"
      and mn: "mark_new (proposed_kindids env st) kind_states1 = Inr kind_states"
      and ts: "tally_states kind_states [0, 0, 0, 0] = Inr state_counts"
      and ini: "init_featureless_kinds env (empty_kind_count st2)
           (st2\<lparr>total_count := length ?old, change_count := changed,
                death_count := state_counts ! 1, birth_count := state_counts ! 2\<rparr>) = Inr st5"
      and st': "st' = st5\<lparr>kind_proposer :=
                     fst (mixture_init_unobserved env (cross_cat st5) (kind_proposer st5) (rng st5)),
                   rng := snd (mixture_init_unobserved env (cross_cat st5) (kind_proposer st5) (rng st5))\<rparr>"
      and b: "b = (changed > 0)"
    from am noop have c0: "changed = 0" and s2: "st2 = after_proposal env st" by simp_all
    from birth_death_tally[OF mo mn ts] have bd: "state_counts ! 1 = 0" "state_counts ! 2 = 0"
      by (simp_all add: same)
    from init_featureless_kinds_untouched[OF ini] bd have cnt:
      "change_count st5 = 0" "death_count st5 = 0" "birth_count st5 = 0"
      by (simp_all add: untouched_def c0)
    from ini bd have ini': "init_featureless_kinds env (empty_kind_count st)
               ((after_proposal env st)
                  \<lparr>total_count := length ?old,
                   change_count := 0, death_count := 0, birth_count := 0\<rparr>) = Inr st5"
      by (simp add: s2 c0 cc)
    from init_featureless_kinds_occupied[OF ini'] have occ:
      "filter_mset (\<lambda>k. featureids k \<noteq> {}) (mset (kinds (cross_cat st5))) =
       filter_mset (\<lambda>k. featureids k \<noteq> {}) (mset (kinds (cross_cat st)))"
      "length (featureid_to_kindid (cross_cat st5)) = length ?old"
      by (simp_all add: cc)
    have e: "cross_cat st' = cross_cat st5" "assignments st' = assignments st5"
      "change_count st' = change_count st5" "death_count st' = death_count st5"
      "birth_count st' = birth_count st5"
      by (simp_all add: st')
    show ?thesis
      using b c0 cnt calls noop cc(1,2) ini' occ e by auto
  qed
qed

theorem no_op_transition_witness:
  "try_run env_noop st_ex_init = Inr (False, st_noop_run) \<and>
   proposed_kindids env_noop st_ex_init = featureid_to_kindid (cross_cat st_ex_init) \<and>
   change_count st_noop_run = 0 \<and> birth_count st_noop_run = 0 \<and> death_count st_noop_run = 0 \<and>
   move_calls env_noop st_ex_init = [] \<and>
   filter_mset (\<lambda>k. featureids k \<noteq> {}) (mset (kinds (cross_cat st_noop_run))) =
     filter_mset (\<lambda>k. featureids k \<noteq> {}) (mset (kinds (cross_cat st_ex_init)))"
proof -
  have t: "try_run env_noop st_ex_init = Inr (False, st_noop_run)" by code_simp
  have p: "proposed_kindids env_noop st_ex_init = featureid_to_kindid (cross_cat st_ex_init)"
    by code_simp
  from no_op_transition[of env_noop st_ex_init False st_noop_run] t p
  show ?thesis by blast
qed

text \<open>
  C4. \<open>try_run\<close> returns true exactly when some feature's proposed kind index differs
  from its previous one; \<open>change_count_\<close> is the number of such features, each of
  which is moved by exactly one call of \<open>move_feature_to_kind\<close> (to its proposed kind,
  in the order of the feature ids); \<open>total_count_\<close> is the number of features.
\<close>

theorem change_count_exact:
  "try_run env st = Inr (b, st') \<longrightarrow>
     (b \<longleftrightarrow> (\<exists>f < length (featureid_to_kindid (cross_cat st)).
               proposed_kindids env st ! f \<noteq> featureid_to_kindid (cross_cat st) ! f)) \<and>
     change_count st' = card {f. f < length (featureid_to_kindid (cross_cat st)) \<and>
               proposed_kindids env st ! f \<noteq> featureid_to_kindid (cross_cat st) ! f} \<and>
     total_count st' = length (featureid_to_kindid (cross_cat st)) \<and>
     distinct (map fst (move_calls env st)) \<and>
     set (move_calls env st) =
       {(f, k). f < length (featureid_to_kindid (cross_cat st)) \<and>
                k = proposed_kindids env st ! f \<and>
                k \<noteq> featureid_to_kindid (cross_cat st) ! f} \<and>
     (\<exists>st2. move_each env (move_calls env st) (after_proposal env st) = Inr st2 \<and>
            apply_moves env (featureid_to_kindid (cross_cat st)) (proposed_kindids env st)
              [0..<length (featureid_to_kindid (cross_cat st))] 0 (after_proposal env st) =
            Inr (length (move_calls env st), st2))"
proof (intro impI)
  let ?old = "featureid_to_kindid (cross_cat st)" and ?new = "proposed_kindids env st"
  let ?D = "{f. f < length ?old \<and> ?new ! f \<noteq> ?old ! f}"
  assume run: "try_run env st = Inr (b, st')"
  have len: "length (move_calls env st) = card ?D"
    by (simp add: move_calls_def Let_def length_filter_upt_card)
  have dist: "distinct (map fst (move_calls env st))"
    by (simp add: move_calls_def Let_def comp_def distinct_map_filter)
  have calls: "set (move_calls env st) =
       {(f, k). f < length ?old \<and> k = ?new ! f \<and> k \<noteq> ?old ! f}"
    by (auto simp: move_calls_def Let_def)
  have fin: "finite ?D" by simp
  from run show "(b \<longleftrightarrow> (\<exists>f < length ?old. ?new ! f \<noteq> ?old ! f)) \<and>
     change_count st' = card ?D \<and> total_count st' = length ?old \<and>
     distinct (map fst (move_calls env st)) \<and>
     set (move_calls env st) =
       {(f, k). f < length ?old \<and> k = ?new ! f \<and> k \<noteq> ?old ! f} \<and>
     (\<exists>st2. move_each env (move_calls env st) (after_proposal env st) = Inr st2 \<and>
            apply_moves env ?old ?new [0..<length ?old] 0 (after_proposal env st) =
            Inr (length (move_calls env st), st2))"
  proof (elim try_run_InrE')
    fix changed st2 kind_states1 kind_states state_counts st5
    assume am: "apply_moves env ?old ?new [0..<length ?old] 0
                  (after_proposal env st) = Inr (changed, st2)"
      and ini: "init_featureless_kinds env (empty_kind_count st2)
           (st2\<lparr>total_count := length ?old, change_count := changed,
                death_count := state_counts ! 1, birth_count := state_counts ! 2\<rparr>) = Inr st5"
      and st': "st' = st5\<lparr>kind_proposer :=
                     fst (mixture_init_unobserved env (cross_cat st5) (kind_proposer st5) (rng st5)),
                   rng := snd (mixture_init_unobserved env (cross_cat st5) (kind_proposer st5) (rng st5))\<rparr>"
      and b: "b = (changed > 0)"
    from apply_moves_untouched[OF am] have ch: "changed = card ?D"
      by (simp add: length_filter_upt_card)
    from apply_moves_calls[OF am] have me:
      "move_each env (move_calls env st) (after_proposal env st) = Inr st2"
      by (simp add: move_calls_def Let_def)
    from init_featureless_kinds_untouched[OF ini] have cnt:
      "change_count st5 = changed" "total_count st5 = length ?old"
      by (simp_all add: untouched_def)
    have "changed > 0 \<longleftrightarrow> ?D \<noteq> {}"
      using fin by (simp add: ch card_gt_0_iff)
    then have bq: "b \<longleftrightarrow> (\<exists>f < length ?old. ?new ! f \<noteq> ?old ! f)"
      using b by auto
    have "apply_moves env ?old ?new [0..<length ?old] 0 (after_proposal env st) =
            Inr (length (move_calls env st), st2)"
      using am by (simp add: len ch)
    with me bq cnt ch dist calls show ?thesis
      by (simp add: st')
  qed
qed

theorem change_count_exact_witness:
  "try_run env_ex st_ex_init = Inr (True, st_ex_run) \<and>
   (\<exists>f < length (featureid_to_kindid (cross_cat st_ex_init)).
       proposed_kindids env_ex st_ex_init ! f \<noteq> featureid_to_kindid (cross_cat st_ex_init) ! f) \<and>
   change_count st_ex_run = card {f. f < length (featureid_to_kindid (cross_cat st_ex_init)) \<and>
       proposed_kindids env_ex st_ex_init ! f \<noteq> featureid_to_kindid (cross_cat st_ex_init) ! f} \<and>
   change_count st_ex_run = 1 \<and>
   total_count st_ex_run = 2 \<and>
   move_calls env_ex st_ex_init = [(1, 2)]"
proof -
  have t: "try_run env_ex st_ex_init = Inr (True, st_ex_run)" by code_simp
  have c: "change_count st_ex_run = 1" "total_count st_ex_run = 2"
    "move_calls env_ex st_ex_init = [(1, 2)]" by code_simp+
  from change_count_exact[of env_ex st_ex_init True st_ex_run] t
  have "(\<exists>f < length (featureid_to_kindid (cross_cat st_ex_init)).
       proposed_kindids env_ex st_ex_init ! f \<noteq> featureid_to_kindid (cross_cat st_ex_init) ! f) \<and>
   change_count st_ex_run = card {f. f < length (featureid_to_kindid (cross_cat st_ex_init)) \<and>
       proposed_kindids env_ex st_ex_init ! f \<noteq> featureid_to_kindid (cross_cat st_ex_init) ! f}"
    by blast
  with t c show ?thesis by blast
qed
text \<open>
  C5, as stated, fails in its second half: that kind 0 loses all of its features and
  a previously empty kind gains one of them does not exclude that a further kind
  empties in the same transition. Below there are three kinds; kind 0 loses its only
  feature 0 to the previously empty kind 2, and kind 1 loses its feature to kind 2 as
  well: \<open>death_count_\<close> is 2 and \<open>birth_count_\<close> is 1.
\<close>

theorem birth_death_two_deaths_counterexample:
  "length (kinds (cross_cat st_two)) = 3 \<and>
   CrossCat_valid (cross_cat st_two) \<and>
   featureid_to_kindid (cross_cat st_two) = [0, 1] \<and>
   featureids (kinds (cross_cat st_two) ! 0) = {0} \<and>
   featureids (kinds (cross_cat st_two) ! 2) = {} \<and>
   proposed_kindids env_merge st_two = [2, 2] \<and>
   try_run env_merge st_two = Inr (True, st_two_run) \<and>
   death_count st_two_run = 2 \<and> birth_count st_two_run = 1"
  by code_simp

text \<open>
  C5, amended. After \<open>try_run\<close>, \<open>death_count_\<close> is the number of kind indices that
  occur in \<open>old_kindids\<close> but not in \<open>new_kindids\<close>, and \<open>birth_count_\<close> the number
  that occur in \<open>new_kindids\<close> but not in \<open>old_kindids\<close>. In particular, when kind 0
  loses all of its features and a previously empty kind \<open>k\<close> gains a feature \<open>f\<close> that
  belonged to kind 0, and no other kind becomes empty or becomes occupied, both counts
  are 1.
\<close>

theorem birth_death_accounting:
  "try_run env st = Inr (b, st') \<longrightarrow>
     death_count st' =
       card (set (featureid_to_kindid (cross_cat st)) - set (proposed_kindids env st)) \<and>
     birth_count st' =
       card (set (proposed_kindids env st) - set (featureid_to_kindid (cross_cat st))) \<and>
     (0 \<in> set (featureid_to_kindid (cross_cat st)) \<and> 0 \<notin> set (proposed_kindids env st) \<and>
      f < length (featureid_to_kindid (cross_cat st)) \<and> f < length (proposed_kindids env st) \<and>
      featureid_to_kindid (cross_cat st) ! f = 0 \<and> proposed_kindids env st ! f = k \<and>
      k \<notin> set (featureid_to_kindid (cross_cat st)) \<and>
      (\<forall>j \<in> set (featureid_to_kindid (cross_cat st)). j \<noteq> 0 \<longrightarrow> j \<in> set (proposed_kindids env st)) \<and>
      (\<forall>j \<in> set (proposed_kindids env st). j \<noteq> k \<longrightarrow> j \<in> set (featureid_to_kindid (cross_cat st)))
      \<longrightarrow> death_count st' = 1 \<and> birth_count st' = 1)"
proof (intro impI)
  let ?old = "featureid_to_kindid (cross_cat st)" and ?new = "proposed_kindids env st"
  assume run: "try_run env st = Inr (b, st')"
  have gen: "death_count st' = card (set ?old - set ?new) \<and>
             birth_count st' = card (set ?new - set ?old)"
    using run
  proof (elim try_run_InrE')
    fix changed st2 kind_states1 kind_states state_counts st5
    assume mo: "mark_old ?old (replicate (length (kinds (cross_cat st2))) 0) = Inr kind_states1"
      and mn: "mark_new ?new kind_states1 = Inr kind_states"
      and ts: "tally_states kind_states [0, 0, 0, 0] = Inr state_counts"
      and ini: "init_featureless_kinds env (empty_kind_count st2)
           (st2\<lparr>total_count := length ?old, change_count := changed,
                death_count := state_counts ! 1, birth_count := state_counts ! 2\<rparr>) = Inr st5"
      and st': "st' = st5\<lparr>kind_proposer :=
                     fst (mixture_init_unobserved env (cross_cat st5) (kind_proposer st5) (rng st5)),
                   rng := snd (mixture_init_unobserved env (cross_cat st5) (kind_proposer st5) (rng st5))\<rparr>"
    from init_featureless_kinds_untouched[OF ini] have
      "death_count st5 = state_counts ! 1" "birth_count st5 = state_counts ! 2"
      by (simp_all add: untouched_def)
    with birth_death_tally[OF mo mn ts] show ?thesis by (simp add: st')
  qed
  have part: "death_count st' = 1 \<and> birth_count st' = 1"
    if h: "0 \<in> set ?old \<and> 0 \<notin> set ?new \<and> f < length ?old \<and> f < length ?new \<and>
      ?old ! f = 0 \<and> ?new ! f = k \<and> k \<notin> set ?old \<and>
      (\<forall>j \<in> set ?old. j \<noteq> 0 \<longrightarrow> j \<in> set ?new) \<and>
      (\<forall>j \<in> set ?new. j \<noteq> k \<longrightarrow> j \<in> set ?old)"
  proof -
    have "k \<in> set ?new" using h by (metis nth_mem)
    then have "set ?new - set ?old = {k}" using h by auto
    moreover have "set ?old - set ?new = {0}" using h by auto
    ultimately show ?thesis using gen by simp
  qed
  from gen part show "death_count st' = card (set ?old - set ?new) \<and>
     birth_count st' = card (set ?new - set ?old) \<and>
     (0 \<in> set ?old \<and> 0 \<notin> set ?new \<and> f < length ?old \<and> f < length ?new \<and>
      ?old ! f = 0 \<and> ?new ! f = k \<and> k \<notin> set ?old \<and>
      (\<forall>j \<in> set ?old. j \<noteq> 0 \<longrightarrow> j \<in> set ?new) \<and>
      (\<forall>j \<in> set ?new. j \<noteq> k \<longrightarrow> j \<in> set ?old)
      \<longrightarrow> death_count st' = 1 \<and> birth_count st' = 1)"
    by blast
qed

theorem birth_death_accounting_witness:
  "try_run env_ex st_syn = Inr (True, st_syn_run) \<and>
   length (kinds (cross_cat st_syn)) = 3 \<and>
   featureid_to_kindid (cross_cat st_syn) = [1, 0] \<and>
   proposed_kindids env_ex st_syn = [1, 2] \<and>
   featureids (kinds (cross_cat st_syn) ! 2) = {} \<and>
   death_count st_syn_run = 1 \<and> birth_count st_syn_run = 1"
proof -
  have t: "try_run env_ex st_syn = Inr (True, st_syn_run)" by code_simp
  have o: "featureid_to_kindid (cross_cat st_syn) = [1, 0]" by code_simp
  have n: "proposed_kindids env_ex st_syn = [1, 2]" by code_simp
  have k: "length (kinds (cross_cat st_syn)) = 3" "featureids (kinds (cross_cat st_syn) ! 2) = {}"
    by code_simp+
  from birth_death_accounting[of env_ex st_syn True st_syn_run 1 2] t
  have "death_count st_syn_run = 1 \<and> birth_count st_syn_run = 1"
    unfolding o n by simp
  with t o n k show ?thesis by simp
qed

section \<open>Removing and adding kinds\<close>

text \<open>
  C6. \<open>remove_featureless_kind(kindid)\<close> fails fatally whenever the kind at
  \<open>kindid\<close> owns a feature, and the state at that abort is the state at the call:
  neither the partition nor the row assignment table has been touched. It returns
  only when the kind's owned set is empty, and then the kind has been removed.
\<close>

theorem remove_nonempty_kind_is_fatal:
  "(kindid < length (kinds (cross_cat st)) \<and> featureids (kinds (cross_cat st) ! kindid) \<noteq> {} \<longrightarrow>
      remove_featureless_kind kindid st =
        Inl (AssertionFailed ''cannot remove nonempty kind'', st)) \<and>
   (remove_featureless_kind kindid st = Inl (AssertionFailed ''cannot remove nonempty kind'', st0) \<longrightarrow>
      cross_cat st0 = cross_cat st \<and> assignments st0 = assignments st \<and>
      featureids (kinds (cross_cat st) ! kindid) \<noteq> {}) \<and>
   (remove_featureless_kind kindid st = Inr st' \<longrightarrow>
      kindid < length (kinds (cross_cat st)) \<and>
      featureids (kinds (cross_cat st) ! kindid) = {} \<and>
      kinds (cross_cat st') = packed_remove kindid (kinds (cross_cat st)) \<and>
      length (kinds (cross_cat st')) = length (kinds (cross_cat st)) - 1)"
proof (intro conjI impI)
  assume "kindid < length (kinds (cross_cat st)) \<and> featureids (kinds (cross_cat st) ! kindid) \<noteq> {}"
  then show "remove_featureless_kind kindid st =
        Inl (AssertionFailed ''cannot remove nonempty kind'', st)"
    by (simp add: remove_featureless_kind_def Let_def)
next
  assume a: "remove_featureless_kind kindid st =
               Inl (AssertionFailed ''cannot remove nonempty kind'', st0)"
  then have "st0 = st \<and> featureids (kinds (cross_cat st) ! kindid) \<noteq> {}"
    by (auto simp: remove_featureless_kind_def Let_def dest: repoint_Inl
          split: if_splits sum.splits)
  then show "cross_cat st0 = cross_cat st" "assignments st0 = assignments st"
    "featureids (kinds (cross_cat st) ! kindid) \<noteq> {}" by simp_all
next
  assume r: "remove_featureless_kind kindid st = Inr st'"
  from remove_featureless_kind_kinds[OF r]
  show "kindid < length (kinds (cross_cat st))"
    "featureids (kinds (cross_cat st) ! kindid) = {}"
    "kinds (cross_cat st') = packed_remove kindid (kinds (cross_cat st))"
    "length (kinds (cross_cat st')) = length (kinds (cross_cat st)) - 1"
    by (simp_all add: length_packed_remove)
qed

theorem remove_nonempty_kind_is_fatal_witness:
  "(0::nat) < length (kinds (cross_cat st_ex_init)) \<and>
   featureids (kinds (cross_cat st_ex_init) ! 0) \<noteq> {} \<and>
   remove_featureless_kind 0 st_ex_init =
     Inl (AssertionFailed ''cannot remove nonempty kind'', st_ex_init) \<and>
   (\<exists>st'. remove_featureless_kind 0 st_ex = Inr st' \<and>
          featureids (kinds (cross_cat st_ex) ! 0) = {} \<and>
          length (kinds (cross_cat st')) = length (kinds (cross_cat st_ex)) - 1)"
proof -
  have h: "(0::nat) < length (kinds (cross_cat st_ex_init))"
    "featureids (kinds (cross_cat st_ex_init) ! 0) \<noteq> {}"
    by (simp_all add: st_ex_init_def st_ex_def)
  note a = remove_nonempty_kind_is_fatal[of 0 st_ex_init st_ex_init st_ex_init]
  from a h have f: "remove_featureless_kind 0 st_ex_init =
     Inl (AssertionFailed ''cannot remove nonempty kind'', st_ex_init)" by blast
  obtain st' where r: "remove_featureless_kind 0 st_ex = Inr st'"
    by (simp add: remove_featureless_kind_def st_ex_def Let_def packed_remove_def)
  from remove_nonempty_kind_is_fatal[of 0 st_ex st_ex st'] r
  have "featureids (kinds (cross_cat st_ex) ! 0) = {} \<and>
          length (kinds (cross_cat st')) = length (kinds (cross_cat st_ex)) - 1" by blast
  with r h f show ?thesis by blast
qed

text \<open>
  C7. On an empty kind within range, with the row assignment table index-aligned and
  the feature ids of the last kind within the map, \<open>remove_featureless_kind(kindid)\<close>
  returns: the last kind now stands at \<open>kindid\<close> (when \<open>kindid\<close> was not the last
  index), all other kinds keep their index, and the kind store and the row assignment
  table are one shorter. The map entry of every feature the relocated kind owns is
  \<open>kindid\<close>, every other entry is as before, and no entry changes when \<open>kindid\<close>
  was the last index.
\<close>

theorem remove_relocates_last_kind:
  "kindid < length (kinds (cross_cat st)) \<and>
   featureids (kinds (cross_cat st) ! kindid) = {} \<and>
   aligned st \<and>
   (\<forall>f \<in> featureids (last (kinds (cross_cat st))). f < length (featureid_to_kindid (cross_cat st)))
   \<longrightarrow>
   (\<exists>st'. remove_featureless_kind kindid st = Inr st' \<and>
      length (kinds (cross_cat st')) = length (kinds (cross_cat st)) - 1 \<and>
      length (kind_queues (assignments st')) = length (kind_queues (assignments st)) - 1 \<and>
      (\<forall>j < length (kinds (cross_cat st)) - 1.
         kinds (cross_cat st') ! j =
           (if j = kindid then last (kinds (cross_cat st)) else kinds (cross_cat st) ! j) \<and>
         kind_queues (assignments st') ! j =
           (if j = kindid then last (kind_queues (assignments st))
            else kind_queues (assignments st) ! j)) \<and>
      row_count (assignments st') = row_count (assignments st) \<and>
      length (featureid_to_kindid (cross_cat st')) = length (featureid_to_kindid (cross_cat st)) \<and>
      (\<forall>f < length (featureid_to_kindid (cross_cat st)).
         featureid_to_kindid (cross_cat st') ! f =
           (if Suc kindid < length (kinds (cross_cat st)) \<and>
               f \<in> featureids (last (kinds (cross_cat st)))
            then kindid else featureid_to_kindid (cross_cat st) ! f)) \<and>
      (Suc kindid = length (kinds (cross_cat st)) \<longrightarrow>
         featureid_to_kindid (cross_cat st') = featureid_to_kindid (cross_cat st)))"
proof (intro impI, elim conjE)
  let ?ks = "kinds (cross_cat st)" and ?m = "featureid_to_kindid (cross_cat st)"
  let ?qs = "kind_queues (assignments st)"
  assume k: "kindid < length ?ks" and e: "featureids (?ks ! kindid) = {}" and al: "aligned st"
    and range: "\<forall>f \<in> featureids (last ?ks). f < length ?m"
  have "featureids (last ?ks) \<subseteq> {..<length ?m}" using range by auto
  then have fin: "finite (featureids (last ?ks))" by (rule finite_subset) simp
  from remove_featureless_kind_spec[OF k e al fin range] obtain m' where
    r: "remove_featureless_kind kindid st =
           Inr (st\<lparr>cross_cat := (cross_cat st)\<lparr>kinds := packed_remove kindid ?ks,
                                                featureid_to_kindid := m'\<rparr>,
                   assignments := (assignments st)\<lparr>kind_queues := packed_remove kindid ?qs\<rparr>\<rparr>)"
    and l: "length m' = length ?m"
    and n: "\<forall>f < length ?m. m' ! f =
            (if Suc kindid < length ?ks \<and> f \<in> featureids (last ?ks) then kindid else ?m ! f)"
    by (elim exE conjE) (rule that)
  have ql: "length ?qs = length ?ks" using al by (simp add: aligned_def)
  have same: "m' = ?m" if "Suc kindid = length ?ks"
    using that l n by (intro nth_equalityI) auto
  show "\<exists>st'. remove_featureless_kind kindid st = Inr st' \<and>
      length (kinds (cross_cat st')) = length ?ks - 1 \<and>
      length (kind_queues (assignments st')) = length ?qs - 1 \<and>
      (\<forall>j < length ?ks - 1.
         kinds (cross_cat st') ! j = (if j = kindid then last ?ks else ?ks ! j) \<and>
         kind_queues (assignments st') ! j = (if j = kindid then last ?qs else ?qs ! j)) \<and>
      row_count (assignments st') = row_count (assignments st) \<and>
      length (featureid_to_kindid (cross_cat st')) = length ?m \<and>
      (\<forall>f < length ?m.
         featureid_to_kindid (cross_cat st') ! f =
           (if Suc kindid < length ?ks \<and> f \<in> featureids (last ?ks)
            then kindid else ?m ! f)) \<and>
      (Suc kindid = length ?ks \<longrightarrow> featureid_to_kindid (cross_cat st') = ?m)"
    unfolding r using l n same ql
    by (intro exI[of _ "st\<lparr>cross_cat := (cross_cat st)\<lparr>kinds := packed_remove kindid ?ks,
                                                featureid_to_kindid := m'\<rparr>,
                   assignments := (assignments st)\<lparr>kind_queues := packed_remove kindid ?qs\<rparr>\<rparr>"]
          conjI)
       (simp_all add: length_packed_remove nth_packed_remove)
qed

theorem remove_relocates_last_kind_witness:
  "(0::nat) < length (kinds (cross_cat st_rel)) \<and>
   featureids (kinds (cross_cat st_rel) ! 0) = {} \<and> aligned st_rel \<and>
   (\<exists>st'. remove_featureless_kind 0 st_rel = Inr st' \<and>
      length (kinds (cross_cat st')) = 2 \<and>
      length (kind_queues (assignments st')) = 2 \<and>
      kinds (cross_cat st') ! 0 = last (kinds (cross_cat st_rel)) \<and>
      kinds (cross_cat st') ! 1 = kinds (cross_cat st_rel) ! 1 \<and>
      featureid_to_kindid (cross_cat st') ! 0 = 1 \<and>
      featureid_to_kindid (cross_cat st') ! 1 = 0) \<and>
   (\<exists>st'. remove_featureless_kind 2 st_ex = Inr st' \<and>
      featureid_to_kindid (cross_cat st') = featureid_to_kindid (cross_cat st_ex))"
proof -
  have h: "(0::nat) < length (kinds (cross_cat st_rel))"
    "featureids (kinds (cross_cat st_rel) ! 0) = {}" "aligned st_rel"
    "\<forall>f \<in> featureids (last (kinds (cross_cat st_rel))).
        f < length (featureid_to_kindid (cross_cat st_rel))"
    by (simp_all add: st_rel_def st_ex_def aligned_def)
  have v: "length (kinds (cross_cat st_rel)) = 3" "length (kind_queues (assignments st_rel)) = 3"
    "featureid_to_kindid (cross_cat st_rel) = [1, 2]"
    "featureids (last (kinds (cross_cat st_rel))) = {1}"
    by (simp_all add: st_rel_def st_ex_def)
  from remove_relocates_last_kind[of 0 st_rel] h
  have 1: "\<exists>st'. remove_featureless_kind 0 st_rel = Inr st' \<and>
      length (kinds (cross_cat st')) = 2 \<and>
      length (kind_queues (assignments st')) = 2 \<and>
      kinds (cross_cat st') ! 0 = last (kinds (cross_cat st_rel)) \<and>
      kinds (cross_cat st') ! 1 = kinds (cross_cat st_rel) ! 1 \<and>
      featureid_to_kindid (cross_cat st') ! 0 = 1 \<and>
      featureid_to_kindid (cross_cat st') ! 1 = 0"
    unfolding v by (auto simp: numeral_2_eq_2 All_less_Suc)
  have g: "(2::nat) < length (kinds (cross_cat st_ex))"
    "featureids (kinds (cross_cat st_ex) ! 2) = {}" "aligned st_ex"
    "\<forall>f \<in> featureids (last (kinds (cross_cat st_ex))).
        f < length (featureid_to_kindid (cross_cat st_ex))"
    "Suc 2 = length (kinds (cross_cat st_ex))"
    by (simp_all add: st_ex_def aligned_def)
  from remove_relocates_last_kind[of 2 st_ex] g
  have 2: "\<exists>st'. remove_featureless_kind 2 st_ex = Inr st' \<and>
      featureid_to_kindid (cross_cat st') = featureid_to_kindid (cross_cat st_ex)"
    by blast
  from h 1 2 show ?thesis by blast
qed

text \<open>
  C8. \<open>add_featureless_kind\<close> appends one kind that owns no feature. Its clustering
  is sampled from the grid prior when that is non-empty, and is otherwise the
  clustering of kind 0 (of the fresh kind itself when the store was empty). One
  assignment vector is drawn for \<open>row_count\<close> rows and becomes the kind's queue in the
  row assignment table. The mixture is initialised from a count vector whose length
  is one more than the largest sampled group id (zero when nothing was sampled) plus
  \<open>empty_group_count_\<close>, and which counts the rows of each group.
\<close>

theorem add_featureless_kind_effect:
  "\<exists>c r1 vec r2 counts.
     (c, r1) =
       (if hyper_prior_clustering (cross_cat st) \<noteq> []
        then sample_clustering_prior env (hyper_prior_clustering (cross_cat st)) (rng st)
        else (if kinds (cross_cat st) = [] then default_clustering env
              else clustering (kinds (cross_cat st) ! 0), rng st)) \<and>
     (vec, r2) = sample_assignments env c (row_count (assignments st)) r1 \<and>
     length counts = (if vec = [] then 0 else Suc (Max (set vec))) + empty_group_count st \<and>
     (\<forall>g < length counts. counts ! g = count_list vec g) \<and>
     add_featureless_kind env st =
       st\<lparr>cross_cat := (cross_cat st)\<lparr>kinds := kinds (cross_cat st) @
              [\<lparr>clustering = c, mixture = fst (init_unobserved env c counts r2), featureids = {}\<rparr>]\<rparr>,
          assignments := (assignments st)
             \<lparr>kind_queues := kind_queues (assignments st) @ [vec]\<rparr>,
          rng := snd (init_unobserved env c counts r2)\<rparr> \<and>
     (samples_every_row env \<longrightarrow> length vec = row_count (assignments st)) \<and>
     (row_count (assignments st) = 0 \<and> samples_every_row env \<longrightarrow>
        length counts = empty_group_count st)"
proof -
  define grid where "grid = hyper_prior_clustering (cross_cat st)"
  define c where "c = (if grid \<noteq> [] then fst (sample_clustering_prior env grid (rng st))
                 else (map clustering (kinds (cross_cat st)) @ [default_clustering env]) ! 0)"
  define r1 where "r1 = (if grid \<noteq> [] then snd (sample_clustering_prior env grid (rng st)) else rng st)"
  define vec where "vec = fst (sample_assignments env c (row_count (assignments st)) r1)"
  define r2 where "r2 = snd (sample_assignments env c (row_count (assignments st)) r1)"
  define counts where "counts = snd (push_and_count vec
                      (replicate (max_group_count vec + empty_group_count st) 0))"
  have c0: "(map clustering (kinds (cross_cat st)) @ [default_clustering env]) ! 0 =
        (if kinds (cross_cat st) = [] then default_clustering env
         else clustering (kinds (cross_cat st) ! 0))"
    by (cases "kinds (cross_cat st)") simp_all
  have 1: "(c, r1) =
       (if hyper_prior_clustering (cross_cat st) \<noteq> []
        then sample_clustering_prior env (hyper_prior_clustering (cross_cat st)) (rng st)
        else (if kinds (cross_cat st) = [] then default_clustering env
              else clustering (kinds (cross_cat st) ! 0), rng st))"
    by (simp add: c_def r1_def grid_def c0)
  have 2: "(vec, r2) = sample_assignments env c (row_count (assignments st)) r1"
    by (simp add: vec_def r2_def)
  have 3: "length counts = (if vec = [] then 0 else Suc (Max (set vec))) + empty_group_count st"
    using snd_push_and_count[of vec "replicate (max_group_count vec + empty_group_count st) 0"]
    by (simp add: counts_def max_group_count_eq)
  have 4: "\<forall>g < length counts. counts ! g = count_list vec g"
    using snd_push_and_count[of vec "replicate (max_group_count vec + empty_group_count st) 0"]
    by (simp add: counts_def)
  have 5: "add_featureless_kind env st =
       st\<lparr>cross_cat := (cross_cat st)\<lparr>kinds := kinds (cross_cat st) @
              [\<lparr>clustering = c, mixture = fst (init_unobserved env c counts r2), featureids = {}\<rparr>]\<rparr>,
          assignments := (assignments st)
             \<lparr>kind_queues := kind_queues (assignments st) @ [vec]\<rparr>,
          rng := snd (init_unobserved env c counts r2)\<rparr>"
    unfolding c_def r1_def vec_def r2_def counts_def grid_def
    by (rule add_featureless_kind_eq)
  have 6: "samples_every_row env \<longrightarrow> length vec = row_count (assignments st)"
    by (simp add: samples_every_row_def vec_def)
  have 7: "row_count (assignments st) = 0 \<and> samples_every_row env \<longrightarrow>
        length counts = empty_group_count st"
    using 3 6 by auto
  from 1 2 3 4 5 6 7 show ?thesis by blast
qed

theorem add_featureless_kind_effect_witness:
  "samples_every_row env_ex \<and>
   hyper_prior_clustering (cross_cat st_ex) = [] \<and>
   clustering (kinds (cross_cat st_ex) ! 0) = 5 \<and>
   row_count (assignments st_ex) = 1 \<and> empty_group_count st_ex = 1 \<and>
   kinds (cross_cat (add_featureless_kind env_ex st_ex)) =
     kinds (cross_cat st_ex) @ [\<lparr>clustering = 5, mixture = 2, featureids = {}\<rparr>] \<and>
   kind_queues (assignments (add_featureless_kind env_ex st_ex)) =
     kind_queues (assignments st_ex) @ [[0]]"
proof -
  have s: "samples_every_row env_ex" by (simp add: samples_every_row_def env_ex_def)
  have h: "hyper_prior_clustering (cross_cat st_ex) = []"
    "clustering (kinds (cross_cat st_ex) ! 0) = 5"
    "row_count (assignments st_ex) = 1" "empty_group_count st_ex = 1"
    "kinds (cross_cat st_ex) \<noteq> []"
    by (simp_all add: st_ex_def)
  from add_featureless_kind_effect[of st_ex env_ex] obtain c r1 vec r2 counts where
    1: "(c, r1) =
       (if hyper_prior_clustering (cross_cat st_ex) \<noteq> []
        then sample_clustering_prior env_ex (hyper_prior_clustering (cross_cat st_ex)) (rng st_ex)
        else (if kinds (cross_cat st_ex) = [] then default_clustering env_ex
              else clustering (kinds (cross_cat st_ex) ! 0), rng st_ex))"
    and 2: "(vec, r2) = sample_assignments env_ex c (row_count (assignments st_ex)) r1"
    and 3: "length counts = (if vec = [] then 0 else Suc (Max (set vec))) + empty_group_count st_ex"
    and 5: "add_featureless_kind env_ex st_ex =
       st_ex\<lparr>cross_cat := (cross_cat st_ex)\<lparr>kinds := kinds (cross_cat st_ex) @
              [\<lparr>clustering = c, mixture = fst (init_unobserved env_ex c counts r2), featureids = {}\<rparr>]\<rparr>,
          assignments := (assignments st_ex)
             \<lparr>kind_queues := kind_queues (assignments st_ex) @ [vec]\<rparr>,
          rng := snd (init_unobserved env_ex c counts r2)\<rparr>"
    by (elim exE conjE) (rule that)
  from 1 h have c: "c = 5" by simp
  from 2 h have v: "vec = [0]" by (simp add: env_ex_def)
  from 3 v h have l: "length counts = 2" by simp
  have m: "fst (init_unobserved env_ex c counts r2) = 2" using l by (simp add: env_ex_def)
  from s h 5 c v m show ?thesis by simp
qed

section \<open>Record streams\<close>

text \<open>
  C9. Writing a list of well-formed messages with \<open>protobuf_stream_dump\<close> to a named
  file that can be opened for output, and reading that file with
  \<open>protobuf_stream_load\<close>, gives the list back, in order (through gzip too, when the
  compressor's output decompresses to its input); on a named file that cannot be
  opened for output the dump fails fatally. \<open>write_stream\<close> appends a little-endian 32-bit length followed by
  exactly that many serialized bytes; \<open>try_read_stream\<close> consumes the first record
  of the stream and advances the position by one, and returns false exactly when
  fewer than four bytes, hence no further length prefix, are left.
\<close>

theorem stream_dump_load_roundtrip:
  "(filename \<noteq> [] \<and> filename \<noteq> ''-'' \<and> filename \<noteq> ''-.gz'' \<and>
    writable filename \<and>
    (\<forall>m \<in> set messages. well_formed lib m) \<and>
    (endswith filename ''.gz'' \<longrightarrow> (\<forall>bytes. gunzip lib (gzip lib bytes) = bytes)) \<longrightarrow>
      (\<exists>fs'. protobuf_stream_dump lib writable messages filename fs = Inr fs' \<and>
             protobuf_stream_load lib fs' pending filename = Inr messages)) \<and>
   (filename \<noteq> [] \<and> filename \<noteq> ''-'' \<and> filename \<noteq> ''-.gz'' \<and> \<not> writable filename \<longrightarrow>
      protobuf_stream_dump lib writable messages filename fs =
        Inl (AssertionFailed ''failed to open output file'')) \<and>
   (write_stream lib message out = Inr out' \<longrightarrow>
      written out' =
        written out
          @ WriteLittleEndian32 (word_of_nat (length (SerializeWithCachedSizes lib message)))
          @ SerializeWithCachedSizes lib message) \<and>
   (well_formed lib message \<longrightarrow>
      unat (word_of_nat (length (SerializeWithCachedSizes lib message)) :: 32 word) =
        length (SerializeWithCachedSizes lib message)) \<and>
   (well_formed lib message \<and> stream f = record_of lib message @ rest \<longrightarrow>
      try_read_stream lib f =
        Inr (Some message, f\<lparr>stream := rest, position := position f + 1\<rparr>)) \<and>
   ((\<exists>f'. try_read_stream lib f = Inr (None, f')) \<longleftrightarrow> length (stream f) < 4) \<and>
   written (write_stream_raw raw out) =
     written out @ WriteLittleEndian32 (word_of_nat (length raw)) @ raw \<and>
   (length raw < 2 ^ 31 \<and>
    stream f = WriteLittleEndian32 (word_of_nat (length raw)) @ raw @ rest \<longrightarrow>
      try_read_stream_raw f =
        Inr (Some raw, f\<lparr>stream := rest, position := position f + 1\<rparr>))"
proof (intro conjI impI)
  assume "filename \<noteq> [] \<and> filename \<noteq> ''-'' \<and> filename \<noteq> ''-.gz'' \<and>
    writable filename \<and>
    (\<forall>m \<in> set messages. well_formed lib m) \<and>
    (endswith filename ''.gz'' \<longrightarrow> (\<forall>bytes. gunzip lib (gzip lib bytes) = bytes))"
  then have h: "filename \<noteq> []" "filename \<noteq> ''-''" "filename \<noteq> ''-.gz''"
    "writable filename"
    "\<forall>m \<in> set messages. well_formed lib m"
    "endswith filename ''.gz'' \<longrightarrow> (\<forall>bytes. gunzip lib (gzip lib bytes) = bytes)"
    by simp_all
  show "\<exists>fs'. protobuf_stream_dump lib writable messages filename fs = Inr fs' \<and>
             protobuf_stream_load lib fs' pending filename = Inr messages"
    by (rule dump_then_load[where writable = writable, OF h])
next
  assume "filename \<noteq> [] \<and> filename \<noteq> ''-'' \<and> filename \<noteq> ''-.gz'' \<and> \<not> writable filename"
  then show "protobuf_stream_dump lib writable messages filename fs =
        Inl (AssertionFailed ''failed to open output file'')"
    by (simp add: protobuf_stream_dump_def OutFile_open_def)
next
  assume "write_stream lib message out = Inr out'"
  from write_stream_written[OF this]
  show "written out' =
        written out
          @ WriteLittleEndian32 (word_of_nat (length (SerializeWithCachedSizes lib message)))
          @ SerializeWithCachedSizes lib message"
    by (simp add: record_of_def)
next
  assume "well_formed lib message"
  then show "unat (word_of_nat (length (SerializeWithCachedSizes lib message)) :: 32 word) =
        length (SerializeWithCachedSizes lib message)"
    by (simp add: well_formed_def unat_word_of_nat_size)
next
  assume "well_formed lib message \<and> stream f = record_of lib message @ rest"
  then have "well_formed lib message" "stream f = record_of lib message @ rest" by simp_all
  then show "try_read_stream lib f =
        Inr (Some message, f\<lparr>stream := rest, position := position f + 1\<rparr>)"
    by (rule try_read_stream_record)
next
  show "(\<exists>f'. try_read_stream lib f = Inr (None, f')) \<longleftrightarrow> length (stream f) < 4"
    by (rule try_read_stream_false_iff)
next
  show "written (write_stream_raw raw out) =
     written out @ WriteLittleEndian32 (word_of_nat (length raw)) @ raw"
    by (simp add: write_stream_raw_def)
next
  assume a: "length raw < 2 ^ 31 \<and>
    stream f = WriteLittleEndian32 (word_of_nat (length raw)) @ raw @ rest"
  then have "ReadLittleEndian32 (stream f) = Some (word_of_nat (length raw), raw @ rest)"
    by (simp add: Read_Write_LittleEndian32)
  moreover have "unat (word_of_nat (length raw) :: 32 word) = length raw"
    using a by (simp add: unat_word_of_nat_size)
  ultimately show "try_read_stream_raw f =
        Inr (Some raw, f\<lparr>stream := rest, position := position f + 1\<rparr>)"
    by (simp add: try_read_stream_raw_def)
qed

theorem stream_dump_load_roundtrip_witness:
  "(\<exists>fs'. protobuf_stream_dump lib_ex writable_ex msgs_ex ''rows.pbs.gz'' Map.empty = Inr fs' \<and>
          protobuf_stream_load lib_ex fs' [] ''rows.pbs.gz'' = Inr msgs_ex) \<and>
   writable_ex ''rows.pbs.gz'' \<and> \<not> writable_ex ''none/rows.pbs'' \<and>
   protobuf_stream_dump lib_ex writable_ex msgs_ex ''none/rows.pbs'' Map.empty =
     Inl (AssertionFailed ''failed to open output file'') \<and>
   well_formed lib_ex [1, 2] \<and> well_formed lib_ex [3] \<and>
   endswith ''rows.pbs.gz'' ''.gz'' \<and>
   record_of lib_ex [1, 2] @ record_of lib_ex [3] = bytes_ex \<and>
   try_read_stream lib_ex \<lparr>in_filename = ''rows.pbs'', in_is_file = True,
                            stream = bytes_ex, position = 0\<rparr> =
     Inr (Some [1, 2], \<lparr>in_filename = ''rows.pbs'', in_is_file = True,
                         stream = record_of lib_ex [3], position = 1\<rparr>)"
proof -
  have wf: "well_formed lib_ex [1, 2]" "well_formed lib_ex [3]"
    by (simp_all add: well_formed_def lib_ex_def)
  then have all: "\<forall>m \<in> set msgs_ex. well_formed lib_ex m" by (simp add: msgs_ex_def)
  have gz: "endswith ''rows.pbs.gz'' ''.gz''" by (simp add: endswith_def)
  have id: "\<forall>bytes. gunzip lib_ex (gzip lib_ex bytes) = bytes" by (simp add: lib_ex_def)
  have wr: "writable_ex ''rows.pbs.gz''" "\<not> writable_ex ''none/rows.pbs''"
    by (simp_all add: writable_ex_def)
  have b: "record_of lib_ex [1, 2] @ record_of lib_ex [3] = bytes_ex"
    by (simp add: record_of_def lib_ex_def bytes_ex_def WriteLittleEndian32_def)
  note t = stream_dump_load_roundtrip[where filename = "''rows.pbs.gz''" and writable = writable_ex
      and messages = msgs_ex and lib = lib_ex and fs = Map.empty and pending = "[]"
      and message = "[1, 2]"
      and f = "\<lparr>in_filename = ''rows.pbs'', in_is_file = True, stream = bytes_ex, position = 0\<rparr>"
      and rest = "record_of lib_ex [3]"]
  from t all id wr have 1: "\<exists>fs'. protobuf_stream_dump lib_ex writable_ex msgs_ex ''rows.pbs.gz'' Map.empty = Inr fs' \<and>
          protobuf_stream_load lib_ex fs' [] ''rows.pbs.gz'' = Inr msgs_ex"
    by simp
  from t wf b have 2: "try_read_stream lib_ex \<lparr>in_filename = ''rows.pbs'', in_is_file = True,
                            stream = bytes_ex, position = 0\<rparr> =
     Inr (Some [1, 2], \<lparr>in_filename = ''rows.pbs'', in_is_file = True,
                         stream = record_of lib_ex [3], position = 1\<rparr>)"
    by simp
  from stream_dump_load_roundtrip[where filename = "''none/rows.pbs''" and writable = writable_ex
      and messages = msgs_ex and lib = lib_ex and fs = Map.empty] wr
  have 3: "protobuf_stream_dump lib_ex writable_ex msgs_ex ''none/rows.pbs'' Map.empty =
     Inl (AssertionFailed ''failed to open output file'')"
    by simp
  from 1 2 3 wf wr gz b show ?thesis by blast
qed




end
